theory Spec2Isabelle
  imports Complex_Main "HOL-Library.AList" "HOL-Library.Log_Nat"
begin

section \<open>Data model\<close>

text \<open>
  The price-comparison core of the grocery agent: \<^verbatim>\<open>src/services/price_service.py\<close>
  and the request gate and the persistence routine of \<^verbatim>\<open>src/services/web_scraper.py\<close>.

  Modelling conventions.
  \<^item> A Python \<^verbatim>\<open>float\<close> (price, quantity, score) is the rational number it denotes.
    \<^verbatim>\<open>statistics.mean\<close> returns the double nearest to the exact mean, and the weights and
    thresholds of the list optimizer are the doubles nearest to their decimal literals
    (\<open>to_double\<close>: 53 significant bits, ties to even, exponent range not bounded). All
    other arithmetic (the running totals, the difference behind the savings, the
    confidence score of a comparison) is exact. \<^verbatim>\<open>round(x, n)\<close> rounds the exact value of
    its argument to \<open>n\<close> decimals, ties to the even neighbour.
  \<^item> A naive \<^verbatim>\<open>datetime\<close> is an integer number of microseconds; \<^verbatim>\<open>datetime.now()\<close> is a
    parameter \<open>now\<close>, read once per call of the modelled function.
  \<^item> A \<^verbatim>\<open>dict\<close> whose iteration order the code relies on is an association list in
    insertion order; assigning to a key replaces the value in place or appends
    (\<^const>\<open>AList.update\<close>).
  \<^item> The three confidence labels \<^verbatim>\<open>"high"\<close>, \<^verbatim>\<open>"medium"\<close>, \<^verbatim>\<open>"low"\<close> are a datatype.
  \<^item> A function that can raise returns a sum with the error on the left; a coroutine is
    the function it computes, its collaborators (database session, scraper) being
    explicit state or parameters.
  \<^item> Strings are lists of 8-bit characters; \<^verbatim>\<open>str.lower\<close> is modelled on ASCII letters.
\<close>

type_synonym datetime = int

definition hours :: "int \<Rightarrow> int" where
  "hours h = h * 3600 * 1000000"

datatype py_error = ZeroDivisionError

datatype confidence_label = High | Medium | Low

text \<open>A row of the table \<^verbatim>\<open>price_data\<close> (class \<^verbatim>\<open>PriceData\<close>), with the columns the core reads or writes.\<close>

record PriceData =
  product_name :: string
  store_name :: string
  price :: rat
  unit :: "string option"
  availability :: bool
  source_url :: "string option"
  data_source :: "string option"
  scraped_at :: datetime

text \<open>The value stored per store in \<^verbatim>\<open>store_prices\<close>.\<close>

record store_entry =
  e_price :: rat
  e_product_name :: string
  e_unit :: "string option"
  e_source_url :: "string option"
  e_last_updated :: datetime

text \<open>The dataclass \<^verbatim>\<open>PriceComparison\<close>.\<close>

record PriceComparison =
  pc_product_name :: string
  cheapest_price :: rat
  cheapest_store :: "string option"
  average_price :: rat
  price_range :: "rat \<times> rat"
  stores_compared :: nat
  savings_opportunity :: rat
  price_by_store :: "(string \<times> store_entry) list"
  confidence :: confidence_label
  last_updated :: datetime

section \<open>Numeric helpers\<close>

definition round_half_even :: "rat \<Rightarrow> int" where
  "round_half_even x =
     (let f = \<lfloor>x\<rfloor>; d = x - of_int f
      in if d < 1 / 2 then f else if 1 / 2 < d then f + 1
         else if even f then f else f + 1)"

definition round2 :: "rat \<Rightarrow> rat" where
  "round2 x = of_int (round_half_even (x * 100)) / 100"

definition round1 :: "rat \<Rightarrow> rat" where
  "round1 x = of_int (round_half_even (x * 10)) / 10"

text \<open>
  The double nearest to a rational: with \<open>2 ^ e \<le> |x| < 2 ^ (e + 1)\<close>, the multiple of
  \<open>2 ^ (e - 52)\<close> nearest to \<open>x\<close>, ties to the even multiple. \<open>binary_exponent\<close> finds
  \<open>e\<close> from the bit lengths of numerator and denominator.
\<close>

definition binary_exponent :: "rat \<Rightarrow> int" where
  "binary_exponent a =
     (let pq = quotient_of a; b = bitlen (fst pq) - bitlen (snd pq)
      in if 2 powi b \<le> a then b else b - 1)"

definition to_double :: "rat \<Rightarrow> rat" where
  "to_double x =
     (if x = 0 then 0
      else
        let a = \<bar>x\<bar>; u = 2 powi (binary_exponent a - 52)
        in sgn x * of_int (round_half_even (a / u)) * u)"

text \<open>
  \<^verbatim>\<open>statistics.mean\<close> of a non-empty list of floats: the exact sum over the length,
  converted to the nearest double.
\<close>

definition exact_mean :: "rat list \<Rightarrow> rat" where
  "exact_mean xs = sum_list xs / of_nat (length xs)"

definition mean :: "rat list \<Rightarrow> rat" where
  "mean xs = to_double (exact_mean xs)"

section \<open>Comparison engine\<close>

text \<open>
  \<^verbatim>\<open>_calculate_confidence\<close>: the share of rows scraped within the last two hours and the
  store coverage, averaged and bucketed. The division by \<^verbatim>\<open>len(price_data)\<close> raises on
  an empty list.
\<close>

definition bucket :: "rat \<Rightarrow> confidence_label" where
  "bucket confidence_score =
     (if confidence_score \<ge> 8 / 10 then High
      else if confidence_score \<ge> 5 / 10 then Medium
      else Low)"

definition calculate_confidence ::
  "datetime \<Rightarrow> PriceData list \<Rightarrow> nat \<Rightarrow> py_error + confidence_label" where
  "calculate_confidence now price_data store_count =
     (let recent_count = sum_list (map (\<lambda>p. 1::nat) (filter (\<lambda>p. scraped_at p > now - hours 2) price_data))
      in if length price_data = 0 then Inl ZeroDivisionError
         else
           let recency_score = of_nat recent_count / of_nat (length price_data);
               coverage_score = min (of_nat store_count / 3) (1::rat);
               confidence_score = (recency_score + coverage_score) / 2
           in Inr (bucket confidence_score))"

text \<open>
  The loop body of \<^verbatim>\<open>_create_price_comparison\<close> that groups by store: a row replaces the
  store's entry when the store is new or the row is strictly cheaper.
\<close>

definition entry_of :: "PriceData \<Rightarrow> store_entry" where
  "entry_of p = \<lparr> e_price = price p, e_product_name = product_name p, e_unit = unit p,
                 e_source_url = source_url p, e_last_updated = scraped_at p \<rparr>"

definition group_step :: "PriceData \<Rightarrow> (string \<times> store_entry) list \<Rightarrow> (string \<times> store_entry) list" where
  "group_step p store_prices =
     (case map_of store_prices (store_name p) of
        None \<Rightarrow> AList.update (store_name p) (entry_of p) store_prices
      | Some e \<Rightarrow>
          if price p < e_price e then AList.update (store_name p) (entry_of p) store_prices
          else store_prices)"

definition group_by_store :: "PriceData list \<Rightarrow> (string \<times> store_entry) list" where
  "group_by_store price_data = fold group_step price_data []"

text \<open>The search for the cheapest store: the first entry, in dictionary order, whose price is the minimum.\<close>

definition find_cheapest_store :: "(string \<times> store_entry) list \<Rightarrow> rat \<Rightarrow> string option" where
  "find_cheapest_store store_prices cheapest =
     map_option fst (find (\<lambda>(store, data). e_price data = cheapest) store_prices)"

text \<open>
  \<^verbatim>\<open>_create_price_comparison\<close>. \<^verbatim>\<open>None\<close> for no rows; otherwise the statistics are taken
  over \<^verbatim>\<open>all_prices\<close>, the prices of all rows.
\<close>

definition create_price_comparison ::
  "datetime \<Rightarrow> string \<Rightarrow> PriceData list \<Rightarrow> py_error + PriceComparison option" where
  "create_price_comparison now name price_data =
     (if price_data = [] then Inr None
      else
        let store_prices = group_by_store price_data;
            all_prices = map price price_data;
            cheapest = Min (set all_prices);
            most_expensive = Max (set all_prices);
            average = mean all_prices;
            cheapest_st = find_cheapest_store store_prices cheapest
        in case calculate_confidence now price_data (length store_prices) of
             Inl e \<Rightarrow> Inl e
           | Inr conf \<Rightarrow>
               let savings = most_expensive - cheapest
               in Inr (Some \<lparr> pc_product_name = name,
                              cheapest_price = cheapest,
                              cheapest_store = cheapest_st,
                              average_price = round2 average,
                              price_range = (cheapest, most_expensive),
                              stores_compared = length store_prices,
                              savings_opportunity = round2 savings,
                              price_by_store = store_prices,
                              confidence = conf,
                              last_updated = Max (set (map scraped_at price_data)) \<rparr>))"

text \<open>The representative price of a store: the lowest price among its rows.\<close>

definition store_rows :: "PriceData list \<Rightarrow> string \<Rightarrow> PriceData list" where
  "store_rows price_data s = filter (\<lambda>p. store_name p = s) price_data"

definition representative_prices :: "PriceData list \<Rightarrow> rat list" where
  "representative_prices price_data =
     map (\<lambda>s. Min (set (map price (store_rows price_data s)))) (remdups (map store_name price_data))"

text \<open>
  The confidence score in the words of the specification: the fraction of the rows
  stamped within the last two hours, and the number of distinct stores over three,
  capped at one, averaged.
\<close>

definition spec_recency_score :: "datetime \<Rightarrow> PriceData list \<Rightarrow> rat" where
  "spec_recency_score now price_data =
     of_nat (length (filter (\<lambda>p. now - hours 2 < scraped_at p) price_data)) / of_nat (length price_data)"

definition spec_coverage_score :: "PriceData list \<Rightarrow> rat" where
  "spec_coverage_score price_data = min (of_nat (card (store_name ` set price_data)) / 3) 1"

definition spec_confidence_score :: "datetime \<Rightarrow> PriceData list \<Rightarrow> rat" where
  "spec_confidence_score now price_data =
     (spec_recency_score now price_data + spec_coverage_score price_data) / 2"

text \<open>A row with the optional columns at fixed values, for concrete examples.\<close>

definition row :: "string \<Rightarrow> string \<Rightarrow> rat \<Rightarrow> datetime \<Rightarrow> PriceData" where
  "row name store amount t =
     \<lparr> product_name = name, store_name = store, price = amount, unit = Some ''each'',
       availability = True, source_url = None, data_source = Some ''web_scraping'', scraped_at = t \<rparr>"

section \<open>Batch comparison\<close>

text \<open>
  \<^verbatim>\<open>compare_prices\<close>. The per-product work (\<^verbatim>\<open>_compare_single_product\<close>: database reads,
  a refresh through the scraper) is a parameter \<open>single\<close> over a state \<open>'s\<close> of the
  collaborators: called on a product it either raises (an exception that
  \<^verbatim>\<open>except Exception\<close> catches) or returns a comparison or \<^verbatim>\<open>None\<close>, and leaves a new
  state. The result dictionary is an association list in insertion order.
\<close>

datatype 'a outcome = Raised | Returned 'a

fun compare_loop ::
  "('s \<Rightarrow> string \<Rightarrow> PriceComparison option outcome \<times> 's) \<Rightarrow> string list
     \<Rightarrow> (string \<times> PriceComparison) list \<Rightarrow> 's \<Rightarrow> (string \<times> PriceComparison) list \<times> 's" where
  "compare_loop single [] comparisons st = (comparisons, st)"
| "compare_loop single (pname # rest) comparisons st =
     (case single st pname of
        (Returned (Some comparison), st') \<Rightarrow>
          compare_loop single rest (AList.update pname comparison comparisons) st'
      | (Returned None, st') \<Rightarrow> compare_loop single rest comparisons st'
      | (Raised, st') \<Rightarrow> compare_loop single rest comparisons st')"

definition compare_prices ::
  "('s \<Rightarrow> string \<Rightarrow> PriceComparison option outcome \<times> 's) \<Rightarrow> string list \<Rightarrow> 's
     \<Rightarrow> (string \<times> PriceComparison) list \<times> 's" where
  "compare_prices single product_names st = compare_loop single product_names [] st"

section \<open>List optimizer\<close>

text \<open>A line of the shopping list: \<^verbatim>\<open>item['item']\<close> and the optional \<^verbatim>\<open>quantity\<close> (default 1).\<close>

record list_item =
  item :: string
  quantity :: "rat option"

text \<open>The per-store accumulator of \<^verbatim>\<open>store_totals\<close>.\<close>

record store_total =
  st_total :: rat
  items :: nat
  confidence_scores :: "rat list"

text \<open>\<^verbatim>\<open>best_total\<close> starts at \<^verbatim>\<open>float('inf')\<close>.\<close>

datatype pyfloat = Fin rat | PosInf

fun lt_pyfloat :: "rat \<Rightarrow> pyfloat \<Rightarrow> bool" where
  "lt_pyfloat x PosInf = True"
| "lt_pyfloat x (Fin y) = (x < y)"

fun round2_pyfloat :: "pyfloat \<Rightarrow> pyfloat" where
  "round2_pyfloat PosInf = PosInf"
| "round2_pyfloat (Fin x) = Fin (round2 x)"

record store_summary =
  s_total :: rat
  s_items_found :: nat
  s_confidence :: confidence_label

record optimization =
  best_store :: "string option"
  best_total :: "pyfloat option"
  store_comparisons :: "(string \<times> store_summary) list"
  items_compared :: nat
  total_items :: nat
  potential_savings :: rat
  coverage :: rat

text \<open>The weights \<^verbatim>\<open>{'high': 1.0, 'medium': 0.7, 'low': 0.4}\<close>, as doubles.\<close>

definition confidence_value :: "confidence_label \<Rightarrow> rat" where
  "confidence_value c =
     (case c of High \<Rightarrow> 1 | Medium \<Rightarrow> to_double (7 / 10) | Low \<Rightarrow> to_double (4 / 10))"

text \<open>The inner loop body: one store of one resolved comparison.\<close>

definition add_store ::
  "PriceComparison \<Rightarrow> rat \<Rightarrow> string \<times> store_entry \<Rightarrow> (string \<times> store_total) list
     \<Rightarrow> (string \<times> store_total) list" where
  "add_store comparison qty sp store_totals =
     (let store = fst sp; price_data = snd sp;
          d = (case map_of store_totals store of
                 None \<Rightarrow> \<lparr> st_total = 0, items = 0, confidence_scores = [] \<rparr>
               | Some d \<Rightarrow> d)
      in AList.update store
           \<lparr> st_total = st_total d + e_price price_data * qty,
             items = items d + 1,
             confidence_scores = confidence_scores d @ [confidence_value (confidence comparison)] \<rparr>
           store_totals)"

record totals_acc =
  acc_store_totals :: "(string \<times> store_total) list"
  acc_items_found :: nat
  acc_total_savings :: rat

text \<open>The outer loop body: one line of the shopping list.\<close>

definition item_step :: "(string \<times> PriceComparison) list \<Rightarrow> list_item \<Rightarrow> totals_acc \<Rightarrow> totals_acc" where
  "item_step comparisons it acc =
     (let pname = item it;
          qty = (case quantity it of None \<Rightarrow> 1 | Some q \<Rightarrow> q)
      in case map_of comparisons pname of
           None \<Rightarrow> acc
         | Some comparison \<Rightarrow>
             \<lparr> acc_store_totals = fold (add_store comparison qty) (price_by_store comparison) (acc_store_totals acc),
               acc_items_found = acc_items_found acc + 1,
               acc_total_savings = acc_total_savings acc + savings_opportunity comparison * qty \<rparr>)"

definition accumulate_totals :: "(string \<times> PriceComparison) list \<Rightarrow> list_item list \<Rightarrow> totals_acc" where
  "accumulate_totals comparisons shopping_list =
     fold (item_step comparisons) shopping_list \<lparr> acc_store_totals = [], acc_items_found = 0, acc_total_savings = 0 \<rparr>"

text \<open>The search for the best store: lowest total among the stores with at least 70% of the found items.\<close>

definition best_step :: "nat \<Rightarrow> string \<times> store_total \<Rightarrow> string option \<times> pyfloat \<Rightarrow> string option \<times> pyfloat" where
  "best_step found sd best =
     (if lt_pyfloat (st_total (snd sd)) (snd best) \<and> of_nat (items (snd sd)) \<ge> of_nat found * (7 / 10 :: rat)
      then (Some (fst sd), Fin (st_total (snd sd)))
      else best)"

definition find_best_store :: "nat \<Rightarrow> (string \<times> store_total) list \<Rightarrow> string option \<times> pyfloat" where
  "find_best_store found totals = fold (best_step found) totals (None, PosInf)"

text \<open>
  The label of a store: the mean of its confidence weights, as \<^verbatim>\<open>statistics.mean\<close>
  returns it, compared with the doubles \<^verbatim>\<open>0.8\<close> and \<^verbatim>\<open>0.6\<close>.
\<close>

definition store_confidence :: "rat list \<Rightarrow> confidence_label" where
  "store_confidence scores =
     (if scores \<noteq> [] then
        (let avg_confidence = mean scores
         in if avg_confidence \<ge> to_double (8 / 10) then High
            else if avg_confidence \<ge> to_double (6 / 10) then Medium
            else Low)
      else Low)"

definition summarize :: "string \<times> store_total \<Rightarrow> string \<times> store_summary" where
  "summarize sd = (fst sd, \<lparr> s_total = round2 (st_total (snd sd)), s_items_found = items (snd sd),
                              s_confidence = store_confidence (confidence_scores (snd sd)) \<rparr>)"

text \<open>
  The body of \<^verbatim>\<open>get_shopping_list_comparison\<close> after the comparisons are known. The
  result dictionary is built last; its \<^verbatim>\<open>coverage\<close> entry divides by
  \<^verbatim>\<open>len(shopping_list)\<close>. \<^verbatim>\<open>if best_store\<close> is false for \<^verbatim>\<open>None\<close> and for the empty string.
\<close>

definition shopping_list_result :: "(string \<times> PriceComparison) list \<Rightarrow> list_item list \<Rightarrow> py_error + optimization" where
  "shopping_list_result comparisons shopping_list =
     (let acc = accumulate_totals comparisons shopping_list;
          best = find_best_store (acc_items_found acc) (acc_store_totals acc)
      in if length shopping_list = 0 then Inl ZeroDivisionError
         else Inr \<lparr> best_store = fst best,
                    best_total = (if fst best \<noteq> None \<and> fst best \<noteq> Some [] then Some (round2_pyfloat (snd best)) else None),
                    store_comparisons = map summarize (acc_store_totals acc),
                    items_compared = acc_items_found acc,
                    total_items = length shopping_list,
                    potential_savings = round2 (acc_total_savings acc),
                    coverage = round1 (of_nat (acc_items_found acc) / of_nat (length shopping_list) * 100) \<rparr>)"

definition get_shopping_list_comparison ::
  "('s \<Rightarrow> string \<Rightarrow> PriceComparison option outcome \<times> 's) \<Rightarrow> list_item list \<Rightarrow> 's
     \<Rightarrow> (py_error + optimization) \<times> 's" where
  "get_shopping_list_comparison single shopping_list st =
     (let product_names = map item shopping_list;
          (comparisons, st') = compare_prices single product_names st
      in (shopping_list_result comparisons shopping_list, st'))"



text \<open>A comparison with the given confidence and per-store prices, for concrete examples.\<close>

definition cmp :: "string \<Rightarrow> confidence_label \<Rightarrow> (string \<times> rat) list \<Rightarrow> PriceComparison" where
  "cmp name c prices =
     \<lparr> pc_product_name = name, cheapest_price = Min (set (map snd prices)),
       cheapest_store = None, average_price = 0, price_range = (0, 0),
       stores_compared = length prices, savings_opportunity = 0,
       price_by_store = map (\<lambda>(s, x). (s, entry_of (row name s x 0))) prices,
       confidence = c, last_updated = 0 \<rparr>"

section \<open>Acquisition gate\<close>

text \<open>
  The state of \<^verbatim>\<open>GroceryWebScraper\<close> that the request gate reads and writes: the set
  \<^verbatim>\<open>active_requests\<close> and the dictionary \<^verbatim>\<open>request_cache\<close> from request key to the time of
  the last processing. The keys of \<^verbatim>\<open>self.stores\<close> are fixed by the constructor.
\<close>

record gate =
  active_requests :: "string set"
  request_cache :: "string \<rightharpoonup> datetime"

definition known_stores :: "string list" where
  "known_stores = [''walmart'', ''target'', ''kroger'']"

text \<open>\<^verbatim>\<open>str.lower\<close> on ASCII letters; other characters are kept.\<close>

definition lower_char :: "char \<Rightarrow> char" where
  "lower_char c =
     (let n = (of_char c :: nat) in if 65 \<le> n \<and> n \<le> 90 then char_of (n + 32) else c)"

definition lower :: "string \<Rightarrow> string" where
  "lower s = map lower_char s"

definition request_key :: "string \<Rightarrow> string \<Rightarrow> string" where
  "request_key pname store = lower pname @ ''_'' @ store"

text \<open>
  The attribute \<^verbatim>\<open>seconds\<close> of a \<^verbatim>\<open>timedelta\<close> of \<open>d\<close> microseconds: the seconds within the
  day, between 0 and 86399; the days are a separate attribute.
\<close>

definition timedelta_seconds :: "int \<Rightarrow> int" where
  "timedelta_seconds d = (d div 1000000) mod 86400"

definition recently_processed :: "datetime \<Rightarrow> gate \<Rightarrow> string \<Rightarrow> bool" where
  "recently_processed current_time g request_key' =
     (case request_cache g request_key' of
        None \<Rightarrow> False
      | Some cache_time \<Rightarrow> timedelta_seconds (current_time - cache_time) < 600)"

text \<open>
  The inner loop of \<^verbatim>\<open>_deduplicate_requests\<close>, over the stores for one product; the
  pair of the gate and of \<^verbatim>\<open>unique_requests\<close> is threaded through. The loop is left when
  the list has reached ten pairs.
\<close>

fun dedup_stores ::
  "datetime \<Rightarrow> string \<Rightarrow> string list \<Rightarrow> gate \<times> (string \<times> string) list
     \<Rightarrow> gate \<times> (string \<times> string) list" where
  "dedup_stores current_time pname [] gu = gu"
| "dedup_stores current_time pname (store # rest) gu =
     (if store \<notin> set known_stores then dedup_stores current_time pname rest gu
      else if request_key pname store \<in> active_requests (fst gu) then dedup_stores current_time pname rest gu
      else if recently_processed current_time (fst gu) (request_key pname store)
        then dedup_stores current_time pname rest gu
      else
        let g' = (fst gu)\<lparr> active_requests := insert (request_key pname store) (active_requests (fst gu)) \<rparr>;
            unique_requests = snd gu @ [(pname, store)]
        in if length unique_requests \<ge> 10 then (g', unique_requests)
           else dedup_stores current_time pname rest (g', unique_requests))"

text \<open>The outer loop, over the products, left as well at ten pairs.\<close>

fun dedup_products ::
  "datetime \<Rightarrow> string list \<Rightarrow> string list \<Rightarrow> gate \<times> (string \<times> string) list
     \<Rightarrow> gate \<times> (string \<times> string) list" where
  "dedup_products current_time [] stores gu = gu"
| "dedup_products current_time (pname # rest) stores gu =
     (let gu' = dedup_stores current_time pname stores gu
      in if length (snd gu') \<ge> 10 then gu'
         else dedup_products current_time rest stores gu')"

definition deduplicate_requests ::
  "datetime \<Rightarrow> gate \<Rightarrow> string list \<Rightarrow> string list \<Rightarrow> gate \<times> (string \<times> string) list" where
  "deduplicate_requests current_time g product_names stores =
     dedup_products current_time product_names stores (g, [])"


definition minutes :: "int \<Rightarrow> int" where
  "minutes m = m * 60 * 1000000"





section \<open>Persisting observations\<close>

text \<open>
  An element of \<^verbatim>\<open>price_results\<close>: the dictionary a store scraper returns, with the keys
  that \<^verbatim>\<open>save_price_data\<close> reads. \<^verbatim>\<open>unit\<close> and \<^verbatim>\<open>source_url\<close> are read with \<^verbatim>\<open>get\<close> and may
  be missing.
\<close>

record scraped =
  sc_product_name :: string
  sc_store_name :: string
  sc_price :: rat
  sc_unit :: "string option"
  sc_availability :: bool
  sc_source_url :: "string option"
  sc_scraped_at :: datetime

text \<open>
  The table is the list of its rows in insertion order. The query of \<^verbatim>\<open>save_price_data\<close>
  selects the rows with the same product name and store stamped within the last six
  hours, and \<^verbatim>\<open>first()\<close> takes the first of them. The session flushes pending rows
  before a query, so a row added for one element is seen by the later ones.
\<close>

definition matches :: "datetime \<Rightarrow> scraped \<Rightarrow> PriceData \<Rightarrow> bool" where
  "matches now obs r \<longleftrightarrow>
     product_name r = sc_product_name obs \<and> store_name r = sc_store_name obs
     \<and> scraped_at r > now - hours 6"

fun first_index :: "('a \<Rightarrow> bool) \<Rightarrow> 'a list \<Rightarrow> nat option" where
  "first_index P [] = None"
| "first_index P (x # xs) = (if P x then Some 0 else map_option Suc (first_index P xs))"

definition update_existing :: "PriceData \<Rightarrow> scraped \<Rightarrow> PriceData" where
  "update_existing existing obs =
     existing\<lparr> price := sc_price obs, availability := sc_availability obs,
               scraped_at := sc_scraped_at obs, source_url := sc_source_url obs \<rparr>"

definition new_price :: "scraped \<Rightarrow> PriceData" where
  "new_price obs =
     \<lparr> product_name = sc_product_name obs, store_name = sc_store_name obs, price = sc_price obs,
       unit = Some (case sc_unit obs of None \<Rightarrow> ''each'' | Some u \<Rightarrow> u),
       availability = sc_availability obs, source_url = sc_source_url obs,
       data_source = Some ''web_scraping'', scraped_at = sc_scraped_at obs \<rparr>"

text \<open>The loop body: update the existing row in place, or add a new one; count the element.\<close>

definition upsert_one :: "datetime \<Rightarrow> scraped \<Rightarrow> PriceData list \<times> nat \<Rightarrow> PriceData list \<times> nat" where
  "upsert_one now obs dbn =
     (case first_index (matches now obs) (fst dbn) of
        Some i \<Rightarrow> ((fst dbn)[i := update_existing (fst dbn ! i) obs], snd dbn + 1)
      | None \<Rightarrow> (fst dbn @ [new_price obs], snd dbn + 1))"

text \<open>
  \<^verbatim>\<open>save_price_data\<close>. The database round trips of a call on \<open>n\<close> elements are numbered
  from 0: round trip \<open>k < n\<close> is the query for element \<open>k\<close>, before which the session
  flushes the pending changes, and round trip \<open>n\<close> is the commit. \<open>failure\<close> is the
  round trip that raises, if one does. The loop counts the elements it has finished, so
  that \<^verbatim>\<open>saved_count\<close> is the number of the round trip it is about to make. On an
  exception the handler rolls the session back, and the function returns \<^verbatim>\<open>saved_count\<close>
  as it stands.
\<close>

fun save_loop ::
  "nat option \<Rightarrow> datetime \<Rightarrow> scraped list \<Rightarrow> PriceData list \<times> nat \<Rightarrow> nat + PriceData list \<times> nat" where
  "save_loop failure now [] dbn = Inr dbn"
| "save_loop failure now (obs # rest) dbn =
     (if failure = Some (snd dbn) then Inl (snd dbn)
      else save_loop failure now rest (upsert_one now obs dbn))"

definition save_price_data ::
  "nat option \<Rightarrow> datetime \<Rightarrow> PriceData list \<Rightarrow> scraped list \<Rightarrow> PriceData list \<times> nat" where
  "save_price_data failure now db price_results =
     (if price_results = [] then (db, 0)
      else
        case save_loop failure now price_results (db, 0) of
          Inl saved_count \<Rightarrow> (db, saved_count)
        | Inr dbn \<Rightarrow> if failure = Some (snd dbn) then (db, snd dbn) else dbn)"

text \<open>A scraped dictionary without unit and source, for concrete examples.\<close>

definition observation :: "string \<Rightarrow> string \<Rightarrow> rat \<Rightarrow> datetime \<Rightarrow> scraped" where
  "observation name store amount t =
     \<lparr> sc_product_name = name, sc_store_name = store, sc_price = amount, sc_unit = None,
       sc_availability = True, sc_source_url = None, sc_scraped_at = t \<rparr>"

section \<open>Auxiliary notions for the statements\<close>

text \<open>The collaborators' state after the products \<open>names\<close> have been processed in order.\<close>

definition state_after ::
  "('s \<Rightarrow> string \<Rightarrow> PriceComparison option outcome \<times> 's) \<Rightarrow> string list \<Rightarrow> 's \<Rightarrow> 's" where
  "state_after single names st = fold (\<lambda>p s. snd (single s p)) names st"

text \<open>
  Some processing of \<open>p\<close> in the batch returned the comparison \<open>c\<close>: \<open>p\<close> occurs at a position
  of the list, and the per-product call made there, in the state the earlier products
  left, returned \<open>c\<close>.
\<close>

definition resolves ::
  "('s \<Rightarrow> string \<Rightarrow> PriceComparison option outcome \<times> 's) \<Rightarrow> string list \<Rightarrow> 's \<Rightarrow> string \<Rightarrow> PriceComparison \<Rightarrow> bool" where
  "resolves single names st p c \<longleftrightarrow>
     (\<exists>pre post. names = pre @ p # post \<and> fst (single (state_after single pre st) p) = Returned (Some c))"


text \<open>The coverage floor: at least 70% of the resolved lines.\<close>

definition eligible :: "nat \<Rightarrow> store_total \<Rightarrow> bool" where
  "eligible found d \<longleftrightarrow> of_nat found * (7 / 10 :: rat) \<le> of_nat (items d)"

text \<open>
  A scripted per-product function for concrete examples: the table gives the outcome for
  a product (\<^verbatim>\<open>None\<close> for a product not listed), and the state counts the calls.
\<close>

definition catalogue_single ::
  "(string \<times> PriceComparison option outcome) list \<Rightarrow> nat \<Rightarrow> string \<Rightarrow> PriceComparison option outcome \<times> nat" where
  "catalogue_single table n p =
     (case map_of table p of None \<Rightarrow> (Returned None, n + 1) | Some r \<Rightarrow> (r, n + 1))"

section \<open>Properties of the rounding functions\<close>

lemma round_half_even_error: "\<bar>of_int (round_half_even y) - y\<bar> \<le> 1 / 2"
proof -
  have "of_int \<lfloor>y\<rfloor> \<le> y" "y < of_int \<lfloor>y\<rfloor> + 1" by linarith+
  then show ?thesis
    by (auto simp: round_half_even_def Let_def)
qed

lemma round2_error: "\<bar>round2 y - y\<bar> \<le> 1 / 200"
proof -
  have "\<bar>of_int (round_half_even (y * 100)) - y * 100\<bar> \<le> 1 / 2"
    by (rule round_half_even_error)
  then show ?thesis by (simp add: round2_def abs_le_iff field_simps)
qed

lemma binary_exponent_le:
  assumes "0 < a"
  shows "2 powi (binary_exponent a) \<le> a"
proof -
  obtain p q where pq: "quotient_of a = (p, q)" by (cases "quotient_of a")
  then have q: "0 < q" and a: "a = of_int p / of_int q"
    by (simp_all add: quotient_of_denom_pos quotient_of_div)
  with assms have p: "0 < p" by (simp add: zero_less_divide_iff)
  let ?b = "bitlen p - bitlen q"
  have bp: "1 \<le> bitlen p" using p bitlen_eq_zero_iff [of p] bitlen_nonneg [of p] by linarith
  have bq: "1 \<le> bitlen q" using q bitlen_eq_zero_iff [of q] bitlen_nonneg [of q] by linarith
  have lp: "(2::rat) powi (bitlen p - 1) \<le> of_int p"
  proof -
    from bitlen_bounds [OF p] have "(2::int) ^ nat (bitlen p - 1) \<le> p" by simp
    then have "(of_int ((2::int) ^ nat (bitlen p - 1)) :: rat) \<le> of_int p"
      by (simp only: of_int_le_iff)
    then show ?thesis using bp by (simp add: power_int_def)
  qed
  have uq: "of_int q \<le> (2::rat) powi (bitlen q)"
  proof -
    from bitlen_bounds [OF q] have "q \<le> (2::int) ^ nat (bitlen q)" by simp
    then have "(of_int q :: rat) \<le> of_int ((2::int) ^ nat (bitlen q))"
      by (simp only: of_int_le_iff)
    then show ?thesis using bq by (simp add: power_int_def)
  qed
  have "?b - 1 = (bitlen p - 1) - bitlen q" by simp
  then have "(2::rat) powi (?b - 1) = 2 powi (bitlen p - 1) / 2 powi (bitlen q)"
    by (simp only: power_int_diff [of "2::rat" "bitlen p - 1" "bitlen q", simplified])
  also have "\<dots> \<le> of_int p / 2 powi (bitlen q)"
    using lp by (simp add: divide_right_mono)
  also have "\<dots> \<le> of_int p / of_int q"
    using uq p q by (simp add: divide_left_mono)
  finally have low: "(2::rat) powi (?b - 1) \<le> a" by (simp add: a)
  show ?thesis
    using low pq by (simp add: binary_exponent_def Let_def)
qed

lemma to_double_error: "\<bar>to_double x - x\<bar> \<le> \<bar>x\<bar> / 2 ^ 53"
proof (cases "x = 0")
  case True
  then show ?thesis by (simp add: to_double_def)
next
  case False
  let ?a = "\<bar>x\<bar>"
  let ?e = "binary_exponent ?a"
  let ?u = "(2::rat) powi (?e - 52)"
  let ?m = "(of_int (round_half_even (?a / ?u)) :: rat)"
  have a: "0 < ?a" using False by simp
  have u: "0 < ?u" by (simp add: zero_less_power_int)
  have td: "to_double x = sgn x * ?m * ?u"
    using False by (simp add: to_double_def Let_def)
  have x: "x = sgn x * ?a" by (simp add: mult_sgn_abs)
  have "to_double x - x = sgn x * (?m * ?u - ?a)"
    unfolding td by (subst (3) x) (simp add: algebra_simps)
  then have "\<bar>to_double x - x\<bar> = \<bar>?m * ?u - ?a\<bar>"
    using False by (simp add: abs_mult abs_sgn_eq)
  also have "?m * ?u - ?a = (?m - ?a / ?u) * ?u" using u by (simp add: field_simps)
  also have "\<bar>(?m - ?a / ?u) * ?u\<bar> = \<bar>?m - ?a / ?u\<bar> * ?u" using u by (simp add: abs_mult)
  also have "\<dots> \<le> (1 / 2) * ?u"
    using round_half_even_error [of "?a / ?u"] u by (intro mult_right_mono) simp_all
  also have "(1 / 2) * ?u = 2 powi ?e / 2 ^ 53"
  proof -
    have "(2::rat) powi (?e - 52) = 2 powi ?e / 2 powi 52"
      by (simp add: power_int_diff)
    then show ?thesis by (simp add: power_int_def)
  qed
  also have "\<dots> \<le> ?a / 2 ^ 53"
    using binary_exponent_le [OF a] by (simp add: divide_right_mono)
  finally show ?thesis .
qed

lemma mean_error: "\<bar>mean xs - exact_mean xs\<bar> \<le> \<bar>exact_mean xs\<bar> / 2 ^ 53"
  unfolding mean_def by (rule to_double_error)

lemma rounded_mean_error:
  "\<bar>round2 (mean xs) - exact_mean xs\<bar> \<le> 1 / 200 + \<bar>exact_mean xs\<bar> / 2 ^ 53"
  using round2_error [of "mean xs"] mean_error [of xs] by linarith

section \<open>Properties of the grouping loop\<close>

lemma group_step_map_of:
  "map_of (group_step p sp) =
     (case map_of sp (store_name p) of
        None \<Rightarrow> (map_of sp)(store_name p \<mapsto> entry_of p)
      | Some e \<Rightarrow> if price p < e_price e then (map_of sp)(store_name p \<mapsto> entry_of p) else map_of sp)"
  by (simp add: group_step_def update_conv' split: option.splits)

lemma group_step_distinct:
  "distinct (map fst sp) \<Longrightarrow> distinct (map fst (group_step p sp))"
  by (simp add: group_step_def distinct_update split: option.splits)

lemma group_by_store_snoc:
  "group_by_store (xs @ [x]) = group_step x (group_by_store xs)"
  by (simp add: group_by_store_def)

lemma group_by_store_distinct: "distinct (map fst (group_by_store xs))"
  by (induction xs rule: rev_induct)
     (simp_all add: group_by_store_snoc group_step_distinct, simp add: group_by_store_def)


lemma store_rows_snoc:
  "store_rows (xs @ [x]) s = store_rows xs s @ (if store_name x = s then [x] else [])"
  by (simp add: store_rows_def)

lemma group_by_store_Nil: "group_by_store [] = []"
  by (simp add: group_by_store_def)

lemma group_by_store_price:
  "map_option e_price (map_of (group_by_store xs) s) =
     (if store_rows xs s = [] then None else Some (Min (set (map price (store_rows xs s)))))"
proof (induction xs rule: rev_induct)
  case Nil
  show ?case by (simp add: group_by_store_Nil store_rows_def)
next
  case (snoc x xs)
  show ?case
  proof (cases "store_name x = s")
    case False
    then have "map_of (group_by_store (xs @ [x])) s = map_of (group_by_store xs) s"
      by (simp add: group_by_store_snoc group_step_map_of split: option.splits)
    with snoc False show ?thesis by (simp add: store_rows_snoc)
  next
    case True
    show ?thesis
    proof (cases "map_of (group_by_store xs) s")
      case None
      with snoc have e: "store_rows xs s = []" by (simp split: if_splits)
      from None True have "map_of (group_by_store (xs @ [x])) s = Some (entry_of x)"
        by (simp add: group_by_store_snoc group_step_map_of)
      with e True show ?thesis by (simp add: store_rows_snoc entry_of_def)
    next
      case (Some e)
      with snoc have ne: "store_rows xs s \<noteq> []"
        and m: "e_price e = Min (set (map price (store_rows xs s)))"
        by (simp_all split: if_splits)
      from ne have ne': "price ` set (store_rows xs s) \<noteq> {}" by simp
      have "map_of (group_by_store (xs @ [x])) s =
              Some (if price x < e_price e then entry_of x else e)"
        using Some True by (simp add: group_by_store_snoc group_step_map_of)
      moreover have "Min (set (map price (store_rows (xs @ [x]) s))) = min (price x) (e_price e)"
        using True ne' m by (simp add: store_rows_snoc)
      ultimately show ?thesis using True
        by (simp add: store_rows_snoc entry_of_def min_def)
    qed
  qed
qed

lemma group_by_store_keys:
  "fst ` set (group_by_store xs) = store_name ` set xs"
proof -
  have "dom (map_of (group_by_store xs)) = store_name ` set xs"
  proof (rule set_eqI)
    fix s
    have "s \<in> dom (map_of (group_by_store xs)) \<longleftrightarrow> map_option e_price (map_of (group_by_store xs) s) \<noteq> None"
      by (auto simp: dom_def)
    also have "\<dots> \<longleftrightarrow> store_rows xs s \<noteq> []"
      by (simp add: group_by_store_price)
    also have "\<dots> \<longleftrightarrow> s \<in> store_name ` set xs"
      by (auto simp: store_rows_def filter_empty_conv)
    finally show "s \<in> dom (map_of (group_by_store xs)) \<longleftrightarrow> s \<in> store_name ` set xs" .
  qed
  then show ?thesis by (simp add: dom_map_of_conv_image_fst)
qed

lemma group_by_store_length:
  "length (group_by_store xs) = card (store_name ` set xs)"
proof -
  have "length (group_by_store xs) = length (map fst (group_by_store xs))" by simp
  also have "\<dots> = card (set (map fst (group_by_store xs)))"
    by (rule distinct_card [OF group_by_store_distinct, symmetric])
  also have "\<dots> = card (store_name ` set xs)"
    using group_by_store_keys by simp
  finally show ?thesis .
qed


lemma calculate_confidence_nonempty:
  "price_data \<noteq> [] \<Longrightarrow>
   calculate_confidence now price_data n =
     Inr (bucket ((of_nat (length (filter (\<lambda>p. scraped_at p > now - hours 2) price_data))
                    / of_nat (length price_data) + min (of_nat n / 3) 1) / 2))"
  by (simp add: calculate_confidence_def Let_def sum_list_triv)

lemma create_price_comparison_nonempty:
  assumes "price_data \<noteq> []"
  shows "create_price_comparison now name price_data =
     Inr (Some \<lparr> pc_product_name = name,
                 cheapest_price = Min (set (map price price_data)),
                 cheapest_store = find_cheapest_store (group_by_store price_data) (Min (set (map price price_data))),
                 average_price = round2 (mean (map price price_data)),
                 price_range = (Min (set (map price price_data)), Max (set (map price price_data))),
                 stores_compared = length (group_by_store price_data),
                 savings_opportunity = round2 (Max (set (map price price_data)) - Min (set (map price price_data))),
                 price_by_store = group_by_store price_data,
                 confidence = bucket ((of_nat (length (filter (\<lambda>p. scraped_at p > now - hours 2) price_data))
                    / of_nat (length price_data) + min (of_nat (length (group_by_store price_data)) / 3) 1) / 2),
                 last_updated = Max (set (map scraped_at price_data)) \<rparr>)"
  using assms
  by (simp add: create_price_comparison_def Let_def calculate_confidence_nonempty)

lemma store_rows_subset: "set (store_rows xs s) \<subseteq> set xs"
  by (auto simp: store_rows_def)

lemma store_rows_nonempty: "p \<in> set xs \<Longrightarrow> p \<in> set (store_rows xs (store_name p))"
  by (simp add: store_rows_def)

lemma store_min_ge_global:
  assumes "store_rows xs s \<noteq> []"
  shows "Min (set (map price xs)) \<le> Min (set (map price (store_rows xs s)))"
proof -
  have "set (map price (store_rows xs s)) \<subseteq> set (map price xs)"
    using store_rows_subset [of xs s] by auto
  moreover have "set (map price (store_rows xs s)) \<noteq> {}" using assms by simp
  ultimately show ?thesis by (intro Min_antimono) simp_all
qed

lemma global_min_attained:
  assumes "xs \<noteq> []"
  shows "\<exists>s e. map_of (group_by_store xs) s = Some e \<and> e_price e = Min (set (map price xs))"
proof -
  have "Min (set (map price xs)) \<in> set (map price xs)"
    using assms by (intro Min_in) simp_all
  then obtain p where p: "p \<in> set xs" "price p = Min (set (map price xs))" by auto
  let ?s = "store_name p"
  have ne: "store_rows xs ?s \<noteq> []" using store_rows_nonempty [OF p(1)] by auto
  have "price p \<in> set (map price (store_rows xs ?s))"
    using store_rows_nonempty [OF p(1)] by simp
  then have "Min (set (map price (store_rows xs ?s))) \<le> price p"
    by (intro Min_le) simp_all
  with store_min_ge_global [OF ne] p(2)
  have eq: "Min (set (map price (store_rows xs ?s))) = Min (set (map price xs))" by simp
  have "map_option e_price (map_of (group_by_store xs) ?s) = Some (Min (set (map price xs)))"
    using ne eq by (simp add: group_by_store_price)
  then show ?thesis by (cases "map_of (group_by_store xs) ?s") auto
qed

lemma find_SomeD: "find P xs = Some x \<Longrightarrow> x \<in> set xs \<and> P x"
  by (induction xs) (auto split: if_splits)

lemma find_cheapest_store_Some:
  assumes "map_of sp s = Some e" "e_price e = c" "distinct (map fst sp)"
  shows "\<exists>s' e'. find_cheapest_store sp c = Some s' \<and> map_of sp s' = Some e' \<and> e_price e' = c"
proof -
  from assms(1) have "(s, e) \<in> set sp" by (rule map_of_SomeD)
  with assms(2) have "\<exists>x\<in>set sp. (\<lambda>(store, data). e_price data = c) x" by auto
  then obtain x where x: "find (\<lambda>(store, data). e_price data = c) sp = Some x"
    by (cases "find (\<lambda>(store, data). e_price data = c) sp") (auto simp: find_None_iff)
  then have "x \<in> set sp" "(\<lambda>(store, data). e_price data = c) x"
    by (auto dest: find_SomeD)
  then have "map_of sp (fst x) = Some (snd x)" "e_price (snd x) = c"
    using assms(3) by (auto simp: case_prod_beta)
  with x show ?thesis by (auto simp: find_cheapest_store_def)
qed

text \<open>
  Claim C10. For every non-empty list of observations the comparison is built, its
  cheapest store is defined, the entry of that store in \<open>price_by_store\<close> carries
  \<open>cheapest_price\<close>, and \<open>cheapest_price\<close> is the lower bound of \<open>price_range\<close>. That
  price is the minimum over the prices of all observations; the cheapest store is a store
  of an observation, its entry carries the lowest price among that store's observations,
  and the stores of \<open>price_by_store\<close> are exactly the stores of the observations: the
  minimum price is attained by a store of the per-store mapping.
\<close>

theorem cheapest_store_attains_minimum:
  assumes "price_data \<noteq> []"
  shows "\<exists>pc s e. create_price_comparison now name price_data = Inr (Some pc)
           \<and> cheapest_store pc = Some s
           \<and> map_of (price_by_store pc) s = Some e
           \<and> e_price e = cheapest_price pc
           \<and> cheapest_price pc = fst (price_range pc)
           \<and> cheapest_price pc = Min (set (map price price_data))
           \<and> s \<in> store_name ` set price_data
           \<and> e_price e = Min (set (map price (store_rows price_data s)))
           \<and> fst ` set (price_by_store pc) = store_name ` set price_data"
proof -
  obtain s e where "map_of (group_by_store price_data) s = Some e"
      "e_price e = Min (set (map price price_data))"
    using global_min_attained [OF assms] by blast
  from find_cheapest_store_Some [OF this group_by_store_distinct]
  obtain s' e' where f:
    "find_cheapest_store (group_by_store price_data) (Min (set (map price price_data))) = Some s'"
    "map_of (group_by_store price_data) s' = Some e'"
    "e_price e' = Min (set (map price price_data))" by blast
  from f(2) have "map_option e_price (map_of (group_by_store price_data) s') = Some (e_price e')"
    by simp
  then have rows: "store_rows price_data s' \<noteq> []"
    and store_min: "e_price e' = Min (set (map price (store_rows price_data s')))"
    unfolding group_by_store_price by (simp_all split: if_splits)
  from rows have mem: "s' \<in> store_name ` set price_data"
    by (auto simp: store_rows_def filter_empty_conv)
  show ?thesis
    using f store_min mem group_by_store_keys [of price_data]
    by (simp add: create_price_comparison_nonempty [OF assms])
qed

theorem cheapest_store_attains_minimum_witness:
  "[row ''milk'' ''walmart'' (349/100) 0, row ''milk'' ''target'' (299/100) 0, row ''milk'' ''walmart'' (319/100) 0] \<noteq> []
   \<and> (\<exists>pc e. create_price_comparison 0 ''milk''
          [row ''milk'' ''walmart'' (349/100) 0, row ''milk'' ''target'' (299/100) 0, row ''milk'' ''walmart'' (319/100) 0] = Inr (Some pc)
        \<and> cheapest_store pc = Some ''target''
        \<and> map_of (price_by_store pc) ''target'' = Some e
        \<and> e_price e = 299 / 100
        \<and> cheapest_price pc = 299 / 100
        \<and> fst (price_range pc) = 299 / 100)"
proof -
  let ?rows = "[row ''milk'' ''walmart'' (349/100) 0, row ''milk'' ''target'' (299/100) 0,
                row ''milk'' ''walmart'' (319/100) 0]"
  have h: "?rows \<noteq> []" by simp
  have m: "Min (set (map price ?rows)) = 299 / 100" by (simp add: row_def)
  have w: "Min (set (map price (store_rows ?rows ''walmart''))) = 319 / 100"
    by (simp add: row_def store_rows_def)
  from cheapest_store_attains_minimum [OF h, of 0 "''milk''"] obtain pc s e where r:
    "create_price_comparison 0 ''milk'' ?rows = Inr (Some pc)"
    "cheapest_store pc = Some s" "map_of (price_by_store pc) s = Some e"
    "e_price e = cheapest_price pc" "cheapest_price pc = fst (price_range pc)"
    "cheapest_price pc = Min (set (map price ?rows))"
    "s \<in> store_name ` set ?rows"
    "e_price e = Min (set (map price (store_rows ?rows s)))"
    by blast
  from r(7) have "s = ''walmart'' \<or> s = ''target''" by (auto simp: row_def)
  moreover have "s \<noteq> ''walmart''"
  proof
    assume "s = ''walmart''"
    with r(8) w have "e_price e = 319 / 100" by simp
    with r(4) r(6) m show False by simp
  qed
  ultimately have s: "s = ''target''" by blast
  from r m s have "create_price_comparison 0 ''milk'' ?rows = Inr (Some pc)
        \<and> cheapest_store pc = Some ''target''
        \<and> map_of (price_by_store pc) ''target'' = Some e
        \<and> e_price e = 299 / 100
        \<and> cheapest_price pc = 299 / 100
        \<and> fst (price_range pc) = 299 / 100" by simp
  with h show ?thesis by blast
qed

lemma representative_prices_Min:
  assumes "xs \<noteq> []"
  shows "Min (set (representative_prices xs)) = Min (set (map price xs))"
proof (rule antisym)
  have ne: "set (representative_prices xs) \<noteq> {}"
    using assms by (simp add: representative_prices_def)
  have "Min (set (map price xs)) \<in> set (map price xs)"
    using assms by (intro Min_in) simp_all
  then obtain p where p: "p \<in> set xs" "price p = Min (set (map price xs))" by auto
  have "price p \<in> set (map price (store_rows xs (store_name p)))"
    using store_rows_nonempty [OF p(1)] by simp
  then have a: "Min (set (map price (store_rows xs (store_name p)))) \<le> price p"
    by (intro Min_le) simp_all
  have "Min (set (map price (store_rows xs (store_name p)))) \<in> set (representative_prices xs)"
    using p(1) by (auto simp: representative_prices_def)
  then have "Min (set (representative_prices xs)) \<le> Min (set (map price (store_rows xs (store_name p))))"
    by (intro Min_le) simp_all
  with a p(2) show "Min (set (representative_prices xs)) \<le> Min (set (map price xs))" by simp
  have "\<forall>r \<in> set (representative_prices xs). Min (set (map price xs)) \<le> r"
  proof
    fix r assume "r \<in> set (representative_prices xs)"
    then obtain q where q: "q \<in> set xs" "r = Min (set (map price (store_rows xs (store_name q))))"
      by (auto simp: representative_prices_def)
    have "store_rows xs (store_name q) \<noteq> []" using store_rows_nonempty [OF q(1)] by auto
    from store_min_ge_global [OF this] q(2) show "Min (set (map price xs)) \<le> r" by simp
  qed
  with ne show "Min (set (map price xs)) \<le> Min (set (representative_prices xs))"
    by (simp add: Min_ge_iff)
qed





text \<open>
  Claim C5, amended. For observations that span at least two stores, \<open>cheapest_price\<close>
  is the minimum of the per-store representative prices, and \<open>savings_opportunity\<close> is
  the width of \<open>price_range\<close> rounded to two decimals (the code rounds the difference,
  the bounds are stored unrounded).
\<close>

theorem cheapest_price_and_rounded_savings:
  assumes "2 \<le> card (store_name ` set price_data)"
  shows "\<exists>pc. create_price_comparison now name price_data = Inr (Some pc)
           \<and> cheapest_price pc = Min (set (representative_prices price_data))
           \<and> savings_opportunity pc = round2 (snd (price_range pc) - fst (price_range pc))"
proof -
  have ne: "price_data \<noteq> []" using assms by auto
  show ?thesis
    by (simp add: create_price_comparison_nonempty [OF ne] representative_prices_Min [OF ne])
qed

theorem cheapest_price_and_rounded_savings_witness:
  "2 \<le> card (store_name ` set [row ''milk'' ''walmart'' (349/100) 0, row ''milk'' ''target'' (299/100) 0])
   \<and> (\<exists>pc. create_price_comparison 0 ''milk'' [row ''milk'' ''walmart'' (349/100) 0, row ''milk'' ''target'' (299/100) 0] = Inr (Some pc)
           \<and> cheapest_price pc = Min (set (representative_prices [row ''milk'' ''walmart'' (349/100) 0, row ''milk'' ''target'' (299/100) 0]))
           \<and> savings_opportunity pc = round2 (snd (price_range pc) - fst (price_range pc)))"
proof -
  have h: "2 \<le> card (store_name ` set [row ''milk'' ''walmart'' (349/100) 0, row ''milk'' ''target'' (299/100) 0])"
    by (simp add: row_def)
  from cheapest_price_and_rounded_savings [OF h, of 0 "''milk''"] h show ?thesis by blast
qed

text \<open>
  Claim C5 as stated fails: with prices 1.001 and 2 at two stores the range is
  (1.001, 2), of width 0.999, and \<open>savings_opportunity\<close> is 1.
\<close>

theorem savings_equals_range_width_counterexample:
  "create_price_comparison 0 ''milk'' [row ''milk'' ''walmart'' (1001/1000) 0, row ''milk'' ''target'' 2 0]
     = Inr (Some \<lparr> pc_product_name = ''milk'', cheapest_price = 1001/1000, cheapest_store = Some ''walmart'',
         average_price = 3/2, price_range = (1001/1000, 2), stores_compared = 2, savings_opportunity = 1,
         price_by_store = [(''walmart'', entry_of (row ''milk'' ''walmart'' (1001/1000) 0)),
                           (''target'', entry_of (row ''milk'' ''target'' 2 0))],
         confidence = High, last_updated = 0 \<rparr>)
   \<and> (1::rat) \<noteq> 2 - 1001/1000"
  by code_simp

lemma filter_distinct_key:
  "distinct (map f xs) \<Longrightarrow> x \<in> set xs \<Longrightarrow> filter (\<lambda>p. f p = f x) xs = [x]"
proof (induction xs)
  case Nil then show ?case by simp
next
  case (Cons a xs)
  show ?case
  proof (cases "a = x")
    case True
    have "f x \<notin> f ` set xs" using Cons.prems(1) True by simp
    then have "\<forall>p\<in>set xs. f p \<noteq> f x" by (metis imageI)
    then have "filter (\<lambda>p. f p = f x) xs = []"
      by (simp add: filter_empty_conv)
    with True show ?thesis by simp
  next
    case False
    with Cons.prems have "x \<in> set xs" by simp
    then have "f a \<noteq> f x" using Cons.prems(1) by auto
    with Cons False \<open>x \<in> set xs\<close> show ?thesis by simp
  qed
qed

lemma representative_prices_distinct:
  assumes "distinct (map store_name xs)"
  shows "representative_prices xs = map price xs"
proof -
  have "map (\<lambda>s. Min (set (map price (store_rows xs s)))) (map store_name xs) = map price xs"
    unfolding map_map
  proof (rule map_cong [OF refl])
    fix p assume "p \<in> set xs"
    from filter_distinct_key [OF assms this]
    have "store_rows xs (store_name p) = [p]" by (simp add: store_rows_def)
    then show "((\<lambda>s. Min (set (map price (store_rows xs s)))) \<circ> store_name) p = price p"
      by simp
  qed
  then show ?thesis using assms by (simp add: representative_prices_def distinct_remdups_id)
qed

text \<open>
  Claim C3, amended. For every non-empty list of observations, \<open>average_price\<close> is the
  mean of the prices of all rows (one value per row) as \<^verbatim>\<open>statistics.mean\<close> computes it,
  the double nearest to the exact mean, rounded to two decimals; it lies within half a
  cent, plus the relative error \<open>2 ^ -53\<close> of the double, of the exact mean, so that at a
  mean on a half cent either neighbour may result. The price range is the minimum and the
  maximum over all rows and the savings their difference, rounded. The lower bound is the
  minimum of the per-store representative prices, and when every store has exactly one
  row the average and the range are those of the per-store representative prices. The
  witness has the prices 3.48 and 3.79, of exact decimal mean 3.635: the average is 3.63.
\<close>

theorem statistics_over_all_observations:
  assumes "price_data \<noteq> []"
  shows "\<exists>pc. create_price_comparison now name price_data = Inr (Some pc)
           \<and> average_price pc = round2 (mean (map price price_data))
           \<and> \<bar>average_price pc - exact_mean (map price price_data)\<bar>
                 \<le> 1 / 200 + \<bar>exact_mean (map price price_data)\<bar> / 2 ^ 53
           \<and> price_range pc = (Min (set (map price price_data)), Max (set (map price price_data)))
           \<and> savings_opportunity pc = round2 (Max (set (map price price_data)) - Min (set (map price price_data)))
           \<and> fst (price_range pc) = Min (set (representative_prices price_data))
           \<and> (distinct (map store_name price_data) \<longrightarrow>
                average_price pc = round2 (mean (representative_prices price_data))
                \<and> price_range pc = (Min (set (representative_prices price_data)),
                                       Max (set (representative_prices price_data))))"
  using representative_prices_distinct [of price_data] rounded_mean_error [of "map price price_data"]
  by (simp add: create_price_comparison_nonempty [OF assms] representative_prices_Min [OF assms])

theorem statistics_over_all_observations_witness:
  "[row ''milk'' ''walmart'' (to_double (348 / 100)) 0, row ''milk'' ''target'' (to_double (379 / 100)) 0] \<noteq> []
   \<and> distinct (map store_name
        [row ''milk'' ''walmart'' (to_double (348 / 100)) 0, row ''milk'' ''target'' (to_double (379 / 100)) 0])
   \<and> (\<exists>pc. create_price_comparison 0 ''milk''
          [row ''milk'' ''walmart'' (to_double (348 / 100)) 0, row ''milk'' ''target'' (to_double (379 / 100)) 0]
          = Inr (Some pc)
        \<and> average_price pc = 363 / 100
        \<and> price_range pc = (to_double (348 / 100), to_double (379 / 100)))"
proof -
  let ?rows = "[row ''milk'' ''walmart'' (to_double (348 / 100)) 0, row ''milk'' ''target'' (to_double (379 / 100)) 0]"
  have h: "?rows \<noteq> []" by simp
  have d: "distinct (map store_name ?rows)" by (simp add: row_def)
  have m: "round2 (mean (map price ?rows)) = 363 / 100" by code_simp
  have lo: "Min (set (map price ?rows)) = to_double (348 / 100)" by code_simp
  have hi: "Max (set (map price ?rows)) = to_double (379 / 100)" by code_simp
  from statistics_over_all_observations [OF h, of 0 "''milk''"] obtain pc where
    "create_price_comparison 0 ''milk'' ?rows = Inr (Some pc)"
    "average_price pc = round2 (mean (map price ?rows))"
    "price_range pc = (Min (set (map price ?rows)), Max (set (map price ?rows)))"
    by blast
  then have "\<exists>pc. create_price_comparison 0 ''milk'' ?rows = Inr (Some pc)
        \<and> average_price pc = 363 / 100
        \<and> price_range pc = (to_double (348 / 100), to_double (379 / 100))"
    unfolding m lo hi by blast
  with h d show ?thesis by blast
qed

text \<open>
  Claim C3 as stated fails: with rows 2 and 10 at one store and 4 at another, the
  per-store representative prices are 2 and 4 (mean 3, maximum 4, spread 2), and the
  comparison reports the average 5.33, the range (2, 10) and the savings 8.
\<close>

theorem average_over_stores_counterexample:
  "create_price_comparison 0 ''milk''
       [row ''milk'' ''walmart'' 2 0, row ''milk'' ''walmart'' 10 0, row ''milk'' ''target'' 4 0]
     = Inr (Some \<lparr> pc_product_name = ''milk'', cheapest_price = 2, cheapest_store = Some ''walmart'',
         average_price = 533/100, price_range = (2, 10), stores_compared = 2, savings_opportunity = 8,
         price_by_store = [(''walmart'', entry_of (row ''milk'' ''walmart'' 2 0)),
                           (''target'', entry_of (row ''milk'' ''target'' 4 0))],
         confidence = High, last_updated = 0 \<rparr>)
   \<and> representative_prices
       [row ''milk'' ''walmart'' 2 0, row ''milk'' ''walmart'' 10 0, row ''milk'' ''target'' 4 0] = [2, 4]
   \<and> mean [2, 4] = 3 \<and> (533/100 :: rat) \<noteq> 3 \<and> Max (set [2, 4 :: rat]) = 4 \<and> (10::rat) \<noteq> 4
   \<and> (8::rat) \<noteq> 4 - 2"
  by code_simp

lemma bucket_High_iff: "bucket x = High \<longleftrightarrow> 8 / 10 \<le> x"
  by (simp add: bucket_def)

lemma bucket_Medium_iff: "bucket x = Medium \<longleftrightarrow> 5 / 10 \<le> x \<and> x < 8 / 10"
  by (auto simp: bucket_def)

lemma bucket_Low_iff: "bucket x = Low \<longleftrightarrow> x < 5 / 10"
  by (auto simp: bucket_def)

lemma create_price_comparison_confidence:
  assumes "price_data \<noteq> []"
  shows "\<exists>pc. create_price_comparison now name price_data = Inr (Some pc)
           \<and> confidence pc = bucket (spec_confidence_score now price_data)"
  by (simp add: create_price_comparison_nonempty [OF assms] group_by_store_length
        spec_confidence_score_def spec_recency_score_def spec_coverage_score_def)

text \<open>
  Claim C7. The confidence label of a comparison is the bucket of the average of the
  fraction of rows stamped within the last two hours and of min(distinct stores / 3, 1):
  high from 0.8 on, medium from 0.5 on, low below. The witness evaluates the two
  boundary scores 0.8 and 0.5.
\<close>

theorem confidence_bucketing:
  assumes "price_data \<noteq> []"
  shows "\<exists>pc. create_price_comparison now name price_data = Inr (Some pc)
           \<and> (confidence pc = High \<longleftrightarrow> 8 / 10 \<le> spec_confidence_score now price_data)
           \<and> (confidence pc = Medium \<longleftrightarrow>
                 5 / 10 \<le> spec_confidence_score now price_data \<and> spec_confidence_score now price_data < 8 / 10)
           \<and> (confidence pc = Low \<longleftrightarrow> spec_confidence_score now price_data < 5 / 10)"
proof -
  obtain pc where pc: "create_price_comparison now name price_data = Inr (Some pc)"
      "confidence pc = bucket (spec_confidence_score now price_data)"
    using create_price_comparison_confidence [OF assms] by blast
  show ?thesis
    unfolding pc(1) using pc(2)
    by (simp only: sum.inject option.inject simp_thms ex_simps bucket_High_iff bucket_Medium_iff bucket_Low_iff)
qed

theorem confidence_bucketing_witness:
  "[row ''milk'' ''walmart'' 3 (hours 9), row ''milk'' ''target'' 3 (hours 9),
    row ''milk'' ''kroger'' 3 (hours 9), row ''milk'' ''walmart'' 3 (hours 1),
    row ''milk'' ''target'' 3 (hours 1)] \<noteq> []
   \<and> spec_confidence_score (hours 10)
       [row ''milk'' ''walmart'' 3 (hours 9), row ''milk'' ''target'' 3 (hours 9),
        row ''milk'' ''kroger'' 3 (hours 9), row ''milk'' ''walmart'' 3 (hours 1),
        row ''milk'' ''target'' 3 (hours 1)] = 8 / 10
   \<and> (\<exists>pc. create_price_comparison (hours 10) ''milk''
          [row ''milk'' ''walmart'' 3 (hours 9), row ''milk'' ''target'' 3 (hours 9),
           row ''milk'' ''kroger'' 3 (hours 9), row ''milk'' ''walmart'' 3 (hours 1),
           row ''milk'' ''target'' 3 (hours 1)] = Inr (Some pc) \<and> confidence pc = High)
   \<and> [row ''milk'' ''walmart'' 3 (hours 1), row ''milk'' ''target'' 3 (hours 1),
        row ''milk'' ''kroger'' 3 (hours 1)] \<noteq> []
   \<and> spec_confidence_score (hours 10)
       [row ''milk'' ''walmart'' 3 (hours 1), row ''milk'' ''target'' 3 (hours 1),
        row ''milk'' ''kroger'' 3 (hours 1)] = 5 / 10
   \<and> (\<exists>pc. create_price_comparison (hours 10) ''milk''
          [row ''milk'' ''walmart'' 3 (hours 1), row ''milk'' ''target'' 3 (hours 1),
           row ''milk'' ''kroger'' 3 (hours 1)] = Inr (Some pc) \<and> confidence pc = Medium)"
proof -
  let ?a = "[row ''milk'' ''walmart'' 3 (hours 9), row ''milk'' ''target'' 3 (hours 9),
    row ''milk'' ''kroger'' 3 (hours 9), row ''milk'' ''walmart'' 3 (hours 1),
    row ''milk'' ''target'' 3 (hours 1)]"
  let ?b = "[row ''milk'' ''walmart'' 3 (hours 1), row ''milk'' ''target'' 3 (hours 1),
        row ''milk'' ''kroger'' 3 (hours 1)]"
  have ha: "?a \<noteq> []" and hb: "?b \<noteq> []" by simp_all
  have sa: "spec_confidence_score (hours 10) ?a = 8 / 10" by code_simp
  have sb: "spec_confidence_score (hours 10) ?b = 5 / 10" by code_simp
  from confidence_bucketing [OF ha, of "hours 10" "''milk''"] sa
  have a: "\<exists>pc. create_price_comparison (hours 10) ''milk'' ?a = Inr (Some pc) \<and> confidence pc = High"
    by auto
  from confidence_bucketing [OF hb, of "hours 10" "''milk''"] sb
  have b: "\<exists>pc. create_price_comparison (hours 10) ''milk'' ?b = Inr (Some pc) \<and> confidence pc = Medium"
    by auto
  from ha hb sa sb a b show ?thesis by blast
qed

section \<open>Properties of the batch comparison\<close>

lemma state_after_Cons: "state_after single (q # qs) st = state_after single qs (snd (single st q))"
  by (simp add: state_after_def)

lemma resolves_Nil: "\<not> resolves single [] st p c"
  by (simp add: resolves_def)

lemma resolves_Cons:
  "resolves single (q # qs) st p c \<longleftrightarrow>
     (q = p \<and> fst (single st q) = Returned (Some c)) \<or> resolves single qs (snd (single st q)) p c"
proof
  assume "resolves single (q # qs) st p c"
  then obtain pre post where d: "q # qs = pre @ p # post"
    and r: "fst (single (state_after single pre st) p) = Returned (Some c)"
    by (auto simp: resolves_def)
  show "(q = p \<and> fst (single st q) = Returned (Some c)) \<or> resolves single qs (snd (single st q)) p c"
  proof (cases pre)
    case Nil
    with d r show ?thesis by (simp add: state_after_def)
  next
    case (Cons a pre')
    with d have "a = q" "qs = pre' @ p # post" by simp_all
    with r Cons show ?thesis by (auto simp: resolves_def state_after_Cons)
  qed
next
  assume "(q = p \<and> fst (single st q) = Returned (Some c)) \<or> resolves single qs (snd (single st q)) p c"
  then show "resolves single (q # qs) st p c"
  proof
    assume "q = p \<and> fst (single st q) = Returned (Some c)"
    then have "q # qs = [] @ p # qs \<and> fst (single (state_after single [] st) p) = Returned (Some c)"
      by (auto simp: state_after_def)
    then show ?thesis unfolding resolves_def by blast
  next
    assume "resolves single qs (snd (single st q)) p c"
    then obtain pre post where "qs = pre @ p # post"
      "fst (single (state_after single pre (snd (single st q))) p) = Returned (Some c)"
      by (auto simp: resolves_def)
    then have "q # qs = (q # pre) @ p # post \<and> fst (single (state_after single (q # pre) st) p) = Returned (Some c)"
      by (simp add: state_after_Cons)
    then show ?thesis unfolding resolves_def by blast
  qed
qed

lemma compare_loop_state:
  "snd (compare_loop single ps acc st) = state_after single ps st"
proof (induction ps arbitrary: acc st)
  case Nil
  show ?case by (simp add: state_after_def)
next
  case (Cons q qs)
  show ?case
    by (cases "single st q") (simp add: Cons state_after_Cons split: outcome.splits option.splits)
qed

lemma compare_loop_keys:
  "p \<in> fst ` set (fst (compare_loop single ps acc st)) \<longleftrightarrow>
     p \<in> fst ` set acc \<or> (\<exists>c. resolves single ps st p c)"
proof (induction ps arbitrary: acc st)
  case Nil
  show ?case by (simp add: resolves_Nil)
next
  case (Cons q qs)
  obtain r st' where s: "single st q = (r, st')" by (cases "single st q")
  show ?case
  proof (cases r)
    case Raised
    with s Cons show ?thesis by (simp add: resolves_Cons)
  next
    case (Returned x)
    show ?thesis
    proof (cases x)
      case None
      with s Returned Cons show ?thesis by (simp add: resolves_Cons)
    next
      case (Some c)
      have "fst ` set (AList.update q c acc) = insert q (fst ` set acc)"
        using dom_update [of q c acc] by (simp add: dom_map_of_conv_image_fst)
      with s Returned Some Cons show ?thesis by (auto simp: resolves_Cons)
    qed
  qed
qed

lemma compare_loop_values:
  "map_of (fst (compare_loop single ps acc st)) p = Some c \<Longrightarrow>
     map_of acc p = Some c \<or> resolves single ps st p c"
proof (induction ps arbitrary: acc st)
  case Nil
  then show ?case by simp
next
  case (Cons q qs)
  obtain r st' where s: "single st q = (r, st')" by (cases "single st q")
  show ?case
  proof (cases r)
    case Raised
    with s Cons.prems have "map_of (fst (compare_loop single qs acc st')) p = Some c" by simp
    from Cons.IH [OF this] s show ?thesis by (auto simp: resolves_Cons)
  next
    case (Returned x)
    show ?thesis
    proof (cases x)
      case None
      with s Returned Cons.prems have "map_of (fst (compare_loop single qs acc st')) p = Some c" by simp
      from Cons.IH [OF this] s show ?thesis by (auto simp: resolves_Cons)
    next
      case (Some c')
      with s Returned Cons.prems
      have "map_of (fst (compare_loop single qs (AList.update q c' acc) st')) p = Some c" by simp
      from Cons.IH [OF this] s Returned Some show ?thesis
        by (auto simp: resolves_Cons update_conv' split: if_splits)
    qed
  qed
qed

text \<open>
  Claim C9. \<^verbatim>\<open>compare_prices\<close> returns for every batch and every behaviour of the
  per-product call. All products are processed, in order, whatever the earlier ones did
  (the final state is the one after all of them); a product is a key of the result
  exactly when some processing of it returned a comparison, and the value stored for it
  is a comparison that a processing of it returned. A product whose processing raised is
  omitted, and only that one. The witness runs a batch whose second product raises.
\<close>

theorem compare_prices_isolates_failures:
  "snd (compare_prices single product_names st) = state_after single product_names st
   \<and> (p \<in> fst ` set (fst (compare_prices single product_names st))
        \<longleftrightarrow> (\<exists>c. resolves single product_names st p c))
   \<and> (map_of (fst (compare_prices single product_names st)) p = Some c
        \<longrightarrow> resolves single product_names st p c)"
  using compare_loop_values [of single product_names "[]" st p c]
  by (simp add: compare_prices_def compare_loop_state compare_loop_keys)

theorem compare_prices_isolates_failures_witness:
  "fst (compare_prices
      (catalogue_single [(''milk'', Returned (Some (cmp ''milk'' High [(''walmart'', 3)]))),
                         (''bread'', Raised),
                         (''eggs'', Returned (Some (cmp ''eggs'' Low [(''target'', 2)])))])
      [''milk'', ''bread'', ''eggs'', ''salt''] 0)
     = [(''milk'', cmp ''milk'' High [(''walmart'', 3)]), (''eggs'', cmp ''eggs'' Low [(''target'', 2)])]
   \<and> snd (compare_prices
      (catalogue_single [(''milk'', Returned (Some (cmp ''milk'' High [(''walmart'', 3)]))),
                         (''bread'', Raised),
                         (''eggs'', Returned (Some (cmp ''eggs'' Low [(''target'', 2)])))])
      [''milk'', ''bread'', ''eggs'', ''salt''] 0) = 4
   \<and> resolves
      (catalogue_single [(''milk'', Returned (Some (cmp ''milk'' High [(''walmart'', 3)]))),
                         (''bread'', Raised),
                         (''eggs'', Returned (Some (cmp ''eggs'' Low [(''target'', 2)])))])
      [''milk'', ''bread'', ''eggs'', ''salt''] 0 ''eggs'' (cmp ''eggs'' Low [(''target'', 2)])"
proof -
  let ?single = "catalogue_single [(''milk'', Returned (Some (cmp ''milk'' High [(''walmart'', 3)]))),
                         (''bread'', Raised),
                         (''eggs'', Returned (Some (cmp ''eggs'' Low [(''target'', 2)])))]"
  let ?names = "[''milk'', ''bread'', ''eggs'', ''salt'']"
  have e: "fst (compare_prices ?single ?names 0)
     = [(''milk'', cmp ''milk'' High [(''walmart'', 3)]), (''eggs'', cmp ''eggs'' Low [(''target'', 2)])]"
    by code_simp
  have n: "snd (compare_prices ?single ?names 0) = 4" by code_simp
  have m: "map_of (fst (compare_prices ?single ?names 0)) ''eggs'' = Some (cmp ''eggs'' Low [(''target'', 2)])"
    unfolding e by simp
  from compare_prices_isolates_failures [of ?single ?names 0 "''eggs''" "cmp ''eggs'' Low [(''target'', 2)]"] m
  have "resolves ?single ?names 0 ''eggs'' (cmp ''eggs'' Low [(''target'', 2)])" by blast
  with e n show ?thesis by blast
qed

section \<open>Properties of the list optimizer\<close>

text \<open>
  Claim C1. On the empty shopping list the optimizer does not return: the \<^verbatim>\<open>coverage\<close>
  entry of the result divides by the length of the list, and the call ends with
  \<^verbatim>\<open>ZeroDivisionError\<close>, for every behaviour of the per-product comparison.
\<close>

theorem empty_list_raises:
  "get_shopping_list_comparison single [] st = (Inl ZeroDivisionError, st)"
  by (simp add: get_shopping_list_comparison_def compare_prices_def shopping_list_result_def Let_def)


lemma add_store_distinct:
  "distinct (map fst T) \<Longrightarrow> distinct (map fst (add_store c q sp T))"
  by (simp add: add_store_def Let_def distinct_update)



lemma fold_add_store_distinct:
  "distinct (map fst T) \<Longrightarrow> distinct (map fst (fold (add_store c q) ps T))"
  by (induction ps arbitrary: T) (simp_all add: add_store_distinct)


lemma item_step_None: "map_of cs (item it) = None \<Longrightarrow> item_step cs it acc = acc"
  by (simp add: item_step_def Let_def)

lemma item_step_Some:
  "map_of cs (item it) = Some c \<Longrightarrow>
   item_step cs it acc =
     \<lparr> acc_store_totals = fold (add_store c (case quantity it of None \<Rightarrow> 1 | Some q \<Rightarrow> q))
                            (price_by_store c) (acc_store_totals acc),
       acc_items_found = acc_items_found acc + 1,
       acc_total_savings = acc_total_savings acc
           + savings_opportunity c * (case quantity it of None \<Rightarrow> 1 | Some q \<Rightarrow> q) \<rparr>"
  by (simp add: item_step_def Let_def)




lemma fold_item_step_distinct:
  "distinct (map fst (acc_store_totals acc)) \<Longrightarrow>
   distinct (map fst (acc_store_totals (fold (item_step cs) sl acc)))"
proof (induction sl arbitrary: acc)
  case Nil
  then show ?case by simp
next
  case (Cons it sl)
  show ?case
    by (cases "map_of cs (item it)")
       (simp_all add: Cons item_step_None item_step_Some fold_add_store_distinct)
qed


lemma fold_item_step_found:
  "acc_items_found (fold (item_step cs) sl acc) =
     acc_items_found acc + length (filter (\<lambda>it. map_of cs (item it) \<noteq> None) sl)"
proof (induction sl arbitrary: acc)
  case Nil
  show ?case by simp
next
  case (Cons it sl)
  show ?case
    by (cases "map_of cs (item it)") (simp_all add: Cons item_step_None item_step_Some)
qed

lemma accumulate_totals_distinct:
  "distinct (map fst (acc_store_totals (accumulate_totals cs sl)))"
  by (simp add: accumulate_totals_def fold_item_step_distinct)


lemma accumulate_totals_found:
  "acc_items_found (accumulate_totals cs sl) = length (filter (\<lambda>it. map_of cs (item it) \<noteq> None) sl)"
  by (simp add: accumulate_totals_def fold_item_step_found)

lemma map_of_summarize:
  "map_of (map summarize T) s = map_option (\<lambda>d. snd (summarize (s, d))) (map_of T s)"
  by (induction T) (auto simp: summarize_def)





lemma get_shopping_list_comparison_Inr:
  assumes "get_shopping_list_comparison single sl st = (Inr r, st')"
  shows "shopping_list_result (fst (compare_prices single (map item sl) st)) sl = Inr r"
  using assms
  by (simp add: get_shopping_list_comparison_def Let_def split: prod.splits)

lemma shopping_list_result_Inr:
  assumes "shopping_list_result cs sl = Inr r"
  shows "store_comparisons r = map summarize (acc_store_totals (accumulate_totals cs sl))"
    and "items_compared r = acc_items_found (accumulate_totals cs sl)"
    and "best_store r = fst (find_best_store (acc_items_found (accumulate_totals cs sl))
                               (acc_store_totals (accumulate_totals cs sl)))"
    and "sl \<noteq> []"
  using assms
  by (auto simp: shopping_list_result_def Let_def split: if_splits)





lemma find_best_store_snoc:
  "find_best_store found (xs @ [x]) = best_step found x (find_best_store found xs)"
  by (simp add: find_best_store_def)

lemma find_best_store_inv:
  "(case find_best_store found xs of
      (None, bt) \<Rightarrow> bt = PosInf \<and> (\<forall>sd\<in>set xs. \<not> eligible found (snd sd))
    | (Some s, bt) \<Rightarrow>
        (\<exists>d. (s, d) \<in> set xs \<and> eligible found d \<and> bt = Fin (st_total d)
              \<and> (\<forall>sd\<in>set xs. eligible found (snd sd) \<longrightarrow> st_total d \<le> st_total (snd sd))))"
proof (induction xs rule: rev_induct)
  case Nil
  show ?case by (simp add: find_best_store_def)
next
  case (snoc x xs)
  obtain k v where x: "x = (k, v)" by (cases x)
  obtain bs bt where b: "find_best_store found xs = (bs, bt)" by (cases "find_best_store found xs")
  show ?case
  proof (cases bs)
    case None
    with snoc b have inv: "bt = PosInf" "\<forall>sd\<in>set xs. \<not> eligible found (snd sd)" by simp_all
    show ?thesis
    proof (cases "eligible found (snd x)")
      case True
      then have "find_best_store found (xs @ [x]) = (Some (fst x), Fin (st_total (snd x)))"
        using b inv(1) by (simp add: find_best_store_snoc best_step_def eligible_def)
      then show ?thesis using True inv(2) x by auto
    next
      case False
      then have "find_best_store found (xs @ [x]) = (None, PosInf)"
        using b inv(1) None by (simp add: find_best_store_snoc best_step_def eligible_def)
      then show ?thesis using False inv(2) by simp
    qed
  next
    case (Some s)
    with snoc b obtain d where d: "(s, d) \<in> set xs" "eligible found d" "bt = Fin (st_total d)"
      "\<forall>sd\<in>set xs. eligible found (snd sd) \<longrightarrow> st_total d \<le> st_total (snd sd)" by auto
    show ?thesis
    proof (cases "st_total (snd x) < st_total d \<and> eligible found (snd x)")
      case True
      then have "find_best_store found (xs @ [x]) = (Some (fst x), Fin (st_total (snd x)))"
        using b d(3) by (simp add: find_best_store_snoc best_step_def eligible_def)
      moreover have "\<forall>sd\<in>set (xs @ [x]). eligible found (snd sd) \<longrightarrow> st_total (snd x) \<le> st_total (snd sd)"
        using True d(4) by fastforce
      ultimately show ?thesis using True x by auto
    next
      case False
      then have "find_best_store found (xs @ [x]) = (Some s, Fin (st_total d))"
        using b d(3) Some by (auto simp: find_best_store_snoc best_step_def eligible_def)
      moreover have "\<forall>sd\<in>set (xs @ [x]). eligible found (snd sd) \<longrightarrow> st_total d \<le> st_total (snd sd)"
        using False d(4) by auto
      ultimately show ?thesis using d(1,2) by auto
    qed
  qed
qed

lemma find_best_store_Some:
  assumes "fst (find_best_store found xs) = Some s" and "distinct (map fst xs)"
  shows "\<exists>d. map_of xs s = Some d \<and> eligible found d
           \<and> snd (find_best_store found xs) = Fin (st_total d)
           \<and> (\<forall>s' d'. map_of xs s' = Some d' \<and> eligible found d' \<longrightarrow> st_total d \<le> st_total d')"
proof -
  obtain bt where b: "find_best_store found xs = (Some s, bt)"
    using assms(1) by (cases "find_best_store found xs") simp
  with find_best_store_inv [where found = found and xs = xs]
  obtain d where d: "(s, d) \<in> set xs" "eligible found d" "bt = Fin (st_total d)"
      "\<forall>sd\<in>set xs. eligible found (snd sd) \<longrightarrow> st_total d \<le> st_total (snd sd)" by auto
  have "map_of xs s = Some d" using d(1) assms(2) by simp
  moreover have "\<forall>s' d'. map_of xs s' = Some d' \<and> eligible found d' \<longrightarrow> st_total d \<le> st_total d'"
  proof (intro allI impI)
    fix s' d' assume "map_of xs s' = Some d' \<and> eligible found d'"
    then have "(s', d') \<in> set xs" "eligible found d'" by (auto dest: map_of_SomeD)
    with d(4) show "st_total d \<le> st_total d'" by fastforce
  qed
  ultimately show ?thesis using d(2,3) b by simp
qed

text \<open>
  Claim C6. When \<open>best_store\<close> is defined, it is a store of the running totals whose
  matched-item count is at least 70% of \<open>items_compared\<close>, the number of list lines with a
  resolved comparison, and whose running total is minimal among the stores that meet this
  floor; its count is the one reported in \<open>store_comparisons\<close>. In the witness a store
  with one of two items (50%) has the lowest total and is not selected.
\<close>

theorem best_store_meets_coverage_floor:
  assumes "get_shopping_list_comparison single shopping_list st = (Inr r, st')"
    and "best_store r = Some s"
  shows "\<exists>d. map_of (acc_store_totals (accumulate_totals
                  (fst (compare_prices single (map item shopping_list) st)) shopping_list)) s = Some d
     \<and> of_nat (items_compared r) * (7 / 10 :: rat) \<le> of_nat (items d)
     \<and> (\<forall>s' d'. map_of (acc_store_totals (accumulate_totals
                  (fst (compare_prices single (map item shopping_list) st)) shopping_list)) s' = Some d'
                \<and> of_nat (items_compared r) * (7 / 10 :: rat) \<le> of_nat (items d')
            \<longrightarrow> st_total d \<le> st_total d')
     \<and> items_compared r = length (filter (\<lambda>it. map_of (fst (compare_prices single (map item shopping_list) st)) (item it) \<noteq> None) shopping_list)
     \<and> map_option s_items_found (map_of (store_comparisons r) s) = Some (items d)"
proof -
  let ?cs = "fst (compare_prices single (map item shopping_list) st)"
  let ?T = "acc_store_totals (accumulate_totals ?cs shopping_list)"
  have res: "shopping_list_result ?cs shopping_list = Inr r"
    by (rule get_shopping_list_comparison_Inr [OF assms(1)])
  note R = shopping_list_result_Inr [OF res]
  from assms(2) R(3) R(2) have "fst (find_best_store (items_compared r) ?T) = Some s" by simp
  from find_best_store_Some [OF this accumulate_totals_distinct]
  obtain d where d: "map_of ?T s = Some d" "eligible (items_compared r) d"
    "\<forall>s' d'. map_of ?T s' = Some d' \<and> eligible (items_compared r) d' \<longrightarrow> st_total d \<le> st_total d'"
    by blast
  have "map_option s_items_found (map_of (store_comparisons r) s) = Some (items d)"
    using d(1) R(1) by (simp add: map_of_summarize summarize_def)
  moreover have "items_compared r = length (filter (\<lambda>it. map_of ?cs (item it) \<noteq> None) shopping_list)"
    using R(2) by (simp add: accumulate_totals_found)
  ultimately show ?thesis using d unfolding eligible_def by blast
qed

theorem best_store_meets_coverage_floor_witness:
  "get_shopping_list_comparison
      (catalogue_single [(''milk'', Returned (Some (cmp ''milk'' High [(''walmart'', 3), (''target'', 1)]))),
                         (''eggs'', Returned (Some (cmp ''eggs'' High [(''walmart'', 2)])))])
      [\<lparr>item = ''milk'', quantity = None\<rparr>, \<lparr>item = ''eggs'', quantity = None\<rparr>] 0
     = (Inr \<lparr> best_store = Some ''walmart'', best_total = Some (Fin 5),
              store_comparisons = [(''walmart'', \<lparr>s_total = 5, s_items_found = 2, s_confidence = High\<rparr>),
                                   (''target'', \<lparr>s_total = 1, s_items_found = 1, s_confidence = High\<rparr>)],
              items_compared = 2, total_items = 2, potential_savings = 0, coverage = 100 \<rparr>, 2)
   \<and> (\<exists>d. map_of (acc_store_totals (accumulate_totals
              (fst (compare_prices
                 (catalogue_single [(''milk'', Returned (Some (cmp ''milk'' High [(''walmart'', 3), (''target'', 1)]))),
                                    (''eggs'', Returned (Some (cmp ''eggs'' High [(''walmart'', 2)])))])
                 (map item [\<lparr>item = ''milk'', quantity = None\<rparr>, \<lparr>item = ''eggs'', quantity = None\<rparr>]) 0))
              [\<lparr>item = ''milk'', quantity = None\<rparr>, \<lparr>item = ''eggs'', quantity = None\<rparr>])) ''walmart'' = Some d
          \<and> (2::rat) * (7 / 10) \<le> of_nat (items d))"
proof -
  let ?single = "catalogue_single [(''milk'', Returned (Some (cmp ''milk'' High [(''walmart'', 3), (''target'', 1)]))),
                         (''eggs'', Returned (Some (cmp ''eggs'' High [(''walmart'', 2)])))]"
  let ?sl = "[\<lparr>item = ''milk'', quantity = None\<rparr>, \<lparr>item = ''eggs'', quantity = None\<rparr>]"
  let ?r = "\<lparr> best_store = Some ''walmart'', best_total = Some (Fin 5),
              store_comparisons = [(''walmart'', \<lparr>s_total = 5, s_items_found = 2, s_confidence = High\<rparr>),
                                   (''target'', \<lparr>s_total = 1, s_items_found = 1, s_confidence = High\<rparr>)],
              items_compared = 2, total_items = 2, potential_savings = 0, coverage = 100 \<rparr>"
  have e: "get_shopping_list_comparison ?single ?sl 0 = (Inr ?r, 2)" by code_simp
  have b: "best_store ?r = Some ''walmart''" by simp
  from best_store_meets_coverage_floor [OF e b] obtain d where
    "map_of (acc_store_totals (accumulate_totals (fst (compare_prices ?single (map item ?sl) 0)) ?sl)) ''walmart'' = Some d"
    "of_nat (items_compared ?r) * (7 / 10 :: rat) \<le> of_nat (items d)" by blast
  with e show ?thesis by auto
qed

section \<open>Properties of the acquisition gate\<close>















text \<open>
  The recency test reads the \<^verbatim>\<open>seconds\<close> attribute of the age, which wraps every day: a
  pair processed 24 hours and 5 minutes ago is dropped like one processed 5 minutes ago.
\<close>

lemma day_old_cache_entry_blocks:
  "snd (deduplicate_requests (hours 25)
          \<lparr>active_requests = {}, request_cache = [''milk_walmart'' \<mapsto> minutes 55]\<rparr>
          [''milk''] [''walmart'']) = []
   \<and> hours 25 - minutes 55 = hours 24 + minutes 5"
  by code_simp


section \<open>Properties of the persistence routine\<close>

lemma first_index_None: "first_index P xs = None \<longleftrightarrow> (\<forall>x\<in>set xs. \<not> P x)"
  by (induction xs) auto

lemma first_index_Some:
  "first_index P xs = Some i \<longleftrightarrow> i < length xs \<and> P (xs ! i) \<and> (\<forall>j<i. \<not> P (xs ! j))"
proof (induction xs arbitrary: i)
  case Nil
  show ?case by simp
next
  case (Cons x xs)
  show ?case
  proof (cases "P x")
    case True
    then show ?thesis by (cases i) auto
  next
    case False
    show ?thesis
    proof (cases i)
      case 0
      with False show ?thesis by auto
    next
      case (Suc k)
      have "(\<forall>j<Suc k. \<not> P ((x # xs) ! j)) \<longleftrightarrow> (\<forall>j<k. \<not> P (xs ! j))"
        using False by (auto simp: less_Suc_eq_0_disj)
      with False Suc Cons [of k] show ?thesis by auto
    qed
  qed
qed

lemma upsert_one_insert:
  assumes "\<forall>r\<in>set db. \<not> matches now ob r"
  shows "upsert_one now ob (db, n) = (db @ [new_price ob], n + 1)"
  using assms by (simp add: upsert_one_def first_index_None [THEN iffD2])

lemma upsert_one_update:
  assumes "i < length db" "matches now ob (db ! i)" "\<forall>j<i. \<not> matches now ob (db ! j)"
  shows "upsert_one now ob (db, n) = (db[i := update_existing (db ! i) ob], n + 1)"
proof -
  from assms have "first_index (matches now ob) db = Some i" by (simp add: first_index_Some)
  then show ?thesis by (simp add: upsert_one_def)
qed

lemma upsert_one_count: "snd (upsert_one now ob dbn) = snd dbn + 1"
  by (simp add: upsert_one_def split: option.splits)

lemma upsert_one_length:
  "length (fst (upsert_one now ob dbn)) = length (fst dbn) \<or>
   length (fst (upsert_one now ob dbn)) = length (fst dbn) + 1"
  by (simp add: upsert_one_def split: option.splits)

lemma fold_upsert_count: "snd (fold (upsert_one now) results dbn) = snd dbn + length results"
  by (induction results arbitrary: dbn) (simp_all add: upsert_one_count)

lemma fold_upsert_length:
  "length (fst dbn) \<le> length (fst (fold (upsert_one now) results dbn))
   \<and> length (fst (fold (upsert_one now) results dbn)) \<le> length (fst dbn) + length results"
proof (induction results arbitrary: dbn)
  case Nil
  show ?case by simp
next
  case (Cons ob results)
  from Cons [of "upsert_one now ob dbn"] upsert_one_length [of now ob dbn]
  show ?case by auto
qed

lemma save_loop_no_failure:
  "save_loop None now results dbn = Inr (fold (upsert_one now) results dbn)"
  by (induction results arbitrary: dbn) simp_all

lemma save_loop_failure:
  "snd dbn \<le> k \<Longrightarrow> k < snd dbn + length results \<Longrightarrow> save_loop (Some k) now results dbn = Inl k"
proof (induction results arbitrary: dbn)
  case Nil
  then show ?case by simp
next
  case (Cons ob results)
  show ?case
  proof (cases "k = snd dbn")
    case True
    then show ?thesis by simp
  next
    case False
    with Cons.prems have "snd (upsert_one now ob dbn) \<le> k"
      "k < snd (upsert_one now ob dbn) + length results"
      by (simp_all add: upsert_one_count)
    from Cons.IH [OF this] False show ?thesis by simp
  qed
qed

lemma save_loop_commit:
  "snd dbn + length results \<le> k \<Longrightarrow>
   save_loop (Some k) now results dbn = Inr (fold (upsert_one now) results dbn)"
proof (induction results arbitrary: dbn)
  case Nil
  show ?case by simp
next
  case (Cons ob results)
  from Cons.prems have "snd (upsert_one now ob dbn) + length results \<le> k" "k \<noteq> snd dbn"
    by (simp_all add: upsert_one_count)
  with Cons.IH [of "upsert_one now ob dbn"] show ?case by simp
qed

lemma save_price_data_committed:
  "price_results \<noteq> [] \<Longrightarrow>
   save_price_data None now db price_results = fold (upsert_one now) price_results (db, 0)"
  by (simp add: save_price_data_def save_loop_no_failure)

lemma save_price_data_single:
  "save_price_data None now db [ob] = upsert_one now ob (db, 0)"
  by (simp add: save_price_data_committed)

lemma save_price_data_failed:
  assumes "price_results \<noteq> []" "k \<le> length price_results"
  shows "save_price_data (Some k) now db price_results = (db, k)"
proof (cases "k < length price_results")
  case True
  then have "save_loop (Some k) now price_results (db, 0) = Inl k"
    by (intro save_loop_failure) simp_all
  with assms(1) show ?thesis by (simp add: save_price_data_def)
next
  case False
  with assms(2) have k: "k = length price_results" by simp
  then have "save_loop (Some k) now price_results (db, 0)
               = Inr (fold (upsert_one now) price_results (db, 0))"
    by (intro save_loop_commit) simp
  with assms(1) k show ?thesis
    by (simp add: save_price_data_def fold_upsert_count)
qed

text \<open>
  Claim C8. The claim does not hold of the code when the database fails: a save of one
  observation whose commit raises, and a save of two observations whose pending insert
  fails at the flush before the second query, leave the table as it was (the session is
  rolled back) and return 1, the count the loop had reached, although no row was
  inserted or updated.
\<close>

theorem failed_save_returns_count:
  "save_price_data (Some 1) now db [ob] = (db, 1)
   \<and> save_price_data (Some 1) now db [ob, ob'] = (db, 1)"
  by (simp add: save_price_data_failed)

text \<open>
  The rest of the claim holds for a save that the database carries out. A save of one
  observation either overwrites the price, availability, timestamp and source of the
  first row of the last six hours with the same product name and store, all other rows
  and columns being kept, or, when there is no such row, appends a row with the columns
  of the observation; it returns 1.
\<close>

lemma committed_save_of_one:
  "save_price_data None now db [ob] =
     (case first_index (matches now ob) db of
        Some i \<Rightarrow>
          (db[i := (db ! i)\<lparr> price := sc_price ob, availability := sc_availability ob,
                              scraped_at := sc_scraped_at ob, source_url := sc_source_url ob \<rparr>], 1)
      | None \<Rightarrow>
          (db @ [\<lparr> product_name = sc_product_name ob, store_name = sc_store_name ob,
                   price = sc_price ob,
                   unit = Some (case sc_unit ob of None \<Rightarrow> ''each'' | Some u \<Rightarrow> u),
                   availability = sc_availability ob, source_url = sc_source_url ob,
                   data_source = Some ''web_scraping'', scraped_at = sc_scraped_at ob \<rparr>], 1))"
  by (simp add: save_price_data_single upsert_one_def update_existing_def new_price_def
        split: option.splits)

text \<open>
  Two saves for the same product name and store, the first observation being within the
  six-hour window of the second save: the second save overwrites, in place, the row that
  the first save wrote, wherever it is in the table. The table has as many rows after the
  second save as after the first, and that row carries the price, availability,
  timestamp and source of the second observation.
\<close>

lemma upsert_twice_same_row:
  assumes key: "sc_product_name o2 = sc_product_name o1" "sc_store_name o2 = sc_store_name o1"
    and order: "now1 \<le> now2"
    and fresh: "now2 - hours 6 < sc_scraped_at o1"
    and first: "save_price_data None now1 db [o1] = (db1, c1)"
    and second: "save_price_data None now2 db1 [o2] = (db2, c2)"
  shows "\<exists>i<length db1.
           (first_index (matches now1 o1) db = Some i \<and> length db1 = length db
              \<or> first_index (matches now1 o1) db = None \<and> i = length db \<and> length db1 = length db + 1)
         \<and> product_name (db1 ! i) = sc_product_name o1 \<and> store_name (db1 ! i) = sc_store_name o1
         \<and> price (db1 ! i) = sc_price o1 \<and> availability (db1 ! i) = sc_availability o1
         \<and> scraped_at (db1 ! i) = sc_scraped_at o1 \<and> source_url (db1 ! i) = sc_source_url o1
         \<and> db2 = db1[i := (db1 ! i)\<lparr> price := sc_price o2, availability := sc_availability o2,
                                      scraped_at := sc_scraped_at o2, source_url := sc_source_url o2 \<rparr>]
         \<and> length db2 = length db1
         \<and> c1 = 1 \<and> c2 = 1"
proof -
  have later: "\<not> matches now1 o1 r \<Longrightarrow> \<not> matches now2 o2 r" for r
    using order key by (auto simp: matches_def)
  have hit: "product_name r = sc_product_name o1 \<Longrightarrow> store_name r = sc_store_name o1 \<Longrightarrow>
             scraped_at r = sc_scraped_at o1 \<Longrightarrow> matches now2 o2 r" for r
    using fresh key by (simp add: matches_def)
  show ?thesis
  proof (cases "first_index (matches now1 o1) db")
    case None
    then have none: "\<forall>r\<in>set db. \<not> matches now1 o1 r" by (simp add: first_index_None)
    from first upsert_one_insert [OF none, of 0]
    have db1: "db1 = db @ [new_price o1]" and c1: "c1 = 1"
      by (simp_all add: save_price_data_single)
    let ?i = "length db"
    have m: "matches now2 o2 (db1 ! ?i)"
      unfolding db1 by (simp add: hit new_price_def)
    have b: "\<forall>j<?i. \<not> matches now2 o2 (db1 ! j)"
      unfolding db1 using none later by (simp add: nth_append)
    have i: "?i < length db1" unfolding db1 by simp
    from second upsert_one_update [OF i m b, of 0]
    have db2: "db2 = db1[?i := update_existing (db1 ! ?i) o2]" and c2: "c2 = 1"
      by (simp_all add: save_price_data_single)
    have "db1 ! ?i = new_price o1" unfolding db1 by simp
    with None i db1 db2 c1 c2 show ?thesis
      by (intro exI [of _ ?i]) (simp add: new_price_def update_existing_def)
  next
    case (Some i)
    then have i: "i < length db" and mi: "matches now1 o1 (db ! i)"
      and bi: "\<forall>j<i. \<not> matches now1 o1 (db ! j)"
      by (simp_all add: first_index_Some)
    from first upsert_one_update [OF i mi bi, of 0]
    have db1: "db1 = db[i := update_existing (db ! i) o1]" and c1: "c1 = 1"
      by (simp_all add: save_price_data_single)
    have row: "db1 ! i = update_existing (db ! i) o1" unfolding db1 using i by simp
    have fields: "product_name (db1 ! i) = sc_product_name o1" "store_name (db1 ! i) = sc_store_name o1"
      "scraped_at (db1 ! i) = sc_scraped_at o1"
      unfolding row using mi by (simp_all add: update_existing_def matches_def)
    have m: "matches now2 o2 (db1 ! i)" by (rule hit [OF fields])
    have b: "\<forall>j<i. \<not> matches now2 o2 (db1 ! j)"
      unfolding db1 using bi later by simp
    have i1: "i < length db1" unfolding db1 using i by simp
    from second upsert_one_update [OF i1 m b, of 0]
    have db2: "db2 = db1[i := update_existing (db1 ! i) o2]" and c2: "c2 = 1"
      by (simp_all add: save_price_data_single)
    have l: "length db1 = length db" unfolding db1 by simp
    from Some i1 l fields row db2 c1 c2 show ?thesis
      by (intro exI [of _ i]) (simp add: update_existing_def)
  qed
qed

text \<open>
  A committed save returns the number of observations it was given, each of which
  inserted one row or updated one.
\<close>

lemma committed_save_count:
  "snd (save_price_data None now db price_results) = length price_results
   \<and> length db \<le> length (fst (save_price_data None now db price_results))
   \<and> length (fst (save_price_data None now db price_results)) \<le> length db + length price_results"
proof (cases "price_results = []")
  case True
  then show ?thesis by (simp add: save_price_data_def)
next
  case False
  with fold_upsert_length [of "(db, 0)" now price_results] show ?thesis
    by (simp add: save_price_data_committed fold_upsert_count)
qed

text \<open>
  An example: the table holds a row of another store; a first observation of 3.49 is
  added as a second row; an hour later an observation of 2.99 for the same product and
  store overwrites that row; seven hours later it would be added as a third row.
\<close>

lemma upsert_twice_example:
  "save_price_data None (hours 10) [row ''milk'' ''target'' 3 (hours 9)]
       [observation ''milk'' ''walmart'' (349 / 100) (hours 10)]
     = ([row ''milk'' ''target'' 3 (hours 9), row ''milk'' ''walmart'' (349 / 100) (hours 10)], 1)
   \<and> save_price_data None (hours 11)
       [row ''milk'' ''target'' 3 (hours 9), row ''milk'' ''walmart'' (349 / 100) (hours 10)]
       [observation ''milk'' ''walmart'' (299 / 100) (hours 11)]
     = ([row ''milk'' ''target'' 3 (hours 9), row ''milk'' ''walmart'' (299 / 100) (hours 11)], 1)
   \<and> save_price_data None (hours 17)
       [row ''milk'' ''target'' 3 (hours 9), row ''milk'' ''walmart'' (349 / 100) (hours 10)]
       [observation ''milk'' ''walmart'' (299 / 100) (hours 17)]
     = ([row ''milk'' ''target'' 3 (hours 9), row ''milk'' ''walmart'' (349 / 100) (hours 10),
         row ''milk'' ''walmart'' (299 / 100) (hours 17)], 1)"
  by (simp add: committed_save_of_one matches_def observation_def row_def hours_def)

end
